theory Spec2Isabelle
  imports Main "HOL-Library.Sublist"
begin

section \<open>Text helpers of the Python runtime used by \<open>main.py\<close>\<close>

text \<open>
  A \<open>char\<close> stands for one code point below 256.  On that range the case mappings used by
  \<open>re.IGNORECASE\<close> and \<open>str.capitalize\<close> only touch the ASCII letters when the
  pattern or the platform name is ASCII, and \<open>\d\<close> matches exactly \<open>0\<close>..\<open>9\<close>.
\<close>

definition ascii_lower :: "char \<Rightarrow> char" where
  "ascii_lower c =
     (let n = (of_char c :: nat) in if 65 \<le> n \<and> n \<le> 90 then char_of (n + 32) else c)"

definition ascii_upper :: "char \<Rightarrow> char" where
  "ascii_upper c =
     (let n = (of_char c :: nat) in if 97 \<le> n \<and> n \<le> 122 then char_of (n - 32) else c)"

definition is_digit :: "char \<Rightarrow> bool" where
  "is_digit c = (let n = (of_char c :: nat) in 48 \<le> n \<and> n \<le> 57)"

text \<open>\<open>str.capitalize()\<close>: first character upper-cased, the rest lower-cased.\<close>

fun capitalize :: "string \<Rightarrow> string" where
  "capitalize [] = []"
| "capitalize (c # cs) = ascii_upper c # map ascii_lower cs"

text \<open>\<open>s.endswith(suf)\<close> and \<open>s.endswith((suf1, suf2, ...))\<close>; both are case-sensitive.\<close>

definition endswith :: "string \<Rightarrow> string \<Rightarrow> bool" where
  "endswith s suf = (length suf \<le> length s \<and> drop (length s - length suf) s = suf)"

definition endswith_any :: "string \<Rightarrow> string list \<Rightarrow> bool" where
  "endswith_any s sufs = list_ex (endswith s) sufs"

section \<open>The regular expressions of \<open>PLATFORMS\<close> and \<open>re.findall\<close>\<close>

text \<open>
  The four patterns use runs of literal characters (the escaped dot among them),
  \<open>[^/]\<close>, \<open>\d\<close>, the greedy quantifiers \<open>?\<close> and \<open>+\<close> (the latter only on a
  single-character item), alternation and capturing groups.  All matching is done under
  \<open>re.IGNORECASE\<close>, so a literal matches in either case.
\<close>

datatype item = NotLit char | Digit

datatype regex =
    Lits string
  | Plus item
  | Opt regex
  | Alt regex regex
  | Seq regex regex
  | Group nat regex

fun item_ok :: "item \<Rightarrow> char \<Rightarrow> bool" where
  "item_ok (NotLit c) d = (ascii_lower d \<noteq> ascii_lower c)"
| "item_ok Digit d = is_digit d"

type_synonym caps = "(nat \<times> string) list"

text \<open>
  A backtracking matcher.  \<open>rmatch r (s, c)\<close> lists every way \<open>r\<close> can match a prefix of
  \<open>s\<close>, as the remaining text and the captures, in the order in which the backtracking
  engine of \<open>re\<close> tries them (greedy first, left alternative first).
\<close>

fun plus_item :: "item \<Rightarrow> string \<Rightarrow> caps \<Rightarrow> (string \<times> caps) list" where
  "plus_item i [] c = []"
| "plus_item i (d # ds) c = (if item_ok i d then plus_item i ds c @ [(ds, c)] else [])"

fun rmatch :: "regex \<Rightarrow> string \<times> caps \<Rightarrow> (string \<times> caps) list" where
  "rmatch (Lits l) (s, c) =
     (if length l \<le> length s \<and> map ascii_lower (take (length l) s) = map ascii_lower l
      then [(drop (length l) s, c)] else [])"
| "rmatch (Plus i) (s, c) = plus_item i s c"
| "rmatch (Opt r) (s, c) = rmatch r (s, c) @ [(s, c)]"
| "rmatch (Alt r1 r2) (s, c) = rmatch r1 (s, c) @ rmatch r2 (s, c)"
| "rmatch (Seq r1 r2) (s, c) = concat (map (rmatch r2) (rmatch r1 (s, c)))"
| "rmatch (Group n r) (s, c) =
     map (\<lambda>(s', c'). (s', (n, take (length s - length s') s) # c')) (rmatch r (s, c))"

text \<open>The number of capturing groups of a pattern.\<close>

fun ngroups :: "regex \<Rightarrow> nat" where
  "ngroups (Lits l) = 0"
| "ngroups (Plus i) = 0"
| "ngroups (Opt r) = ngroups r"
| "ngroups (Alt r1 r2) = ngroups r1 + ngroups r2"
| "ngroups (Seq r1 r2) = ngroups r1 + ngroups r2"
| "ngroups (Group n r) = Suc (ngroups r)"

text \<open>One match object: start offset, end offset, matched text, captures.\<close>

record rematch =
  m_start :: nat
  m_end :: nat
  m_text :: string
  m_caps :: caps

text \<open>
  The scanner behind \<open>findall\<close>: search from the current offset for the leftmost match;
  after a match continue at its end; after an empty match the next match at the same
  offset must be non-empty (\<open>must_advance\<close>).
\<close>

lemma plus_item_suffix: "(s', c') \<in> set (plus_item i s c) \<Longrightarrow> suffix s' s"
  by (induction s) (auto split: if_splits simp: suffix_Cons)

lemma rmatch_suffix: "(s', c') \<in> set (rmatch r (s, c)) \<Longrightarrow> suffix s' s"
proof (induction r arbitrary: s c s' c')
  case (Lits l)
  then show ?case by (auto split: if_splits simp: suffix_drop)
next
  case (Plus i)
  then show ?case using plus_item_suffix by auto
next
  case (Opt r)
  then show ?case by auto
next
  case (Alt r1 r2)
  then show ?case by auto
next
  case (Seq r1 r2)
  then show ?case by (fastforce intro: suffix_order.trans)
next
  case (Group n r)
  then show ?case by auto
qed

lemma find_Some_mem: "find P xs = Some x \<Longrightarrow> x \<in> set xs \<and> P x"
  by (induction xs) (auto split: if_splits)

lemma scan_step:
  assumes "find (\<lambda>(s', c). \<not> (must \<and> s' = s)) (rmatch r (s, [])) = Some (s', c)"
  shows "2 * length s' + (if s' = s then 0 else 1) < 2 * length s + (if must then 0 else (1::nat))"
proof -
  from assms have mem: "(s', c) \<in> set (rmatch r (s, []))" and ok: "\<not> (must \<and> s' = s)"
    by (auto dest: find_Some_mem)
  from mem have suf: "suffix s' s" by (rule rmatch_suffix)
  show ?thesis
  proof (cases "s' = s")
    case True
    with ok show ?thesis by simp
  next
    case False
    from suf obtain p where "s = p @ s'" by (auto simp: suffix_def)
    with False have "length s' < length s" by (cases p) auto
    then show ?thesis by (simp add: False)
  qed
qed

function scan :: "regex \<Rightarrow> nat \<Rightarrow> bool \<Rightarrow> string \<Rightarrow> rematch list" where
  "scan r pos must_advance s =
     (case find (\<lambda>(s', c). \<not> (must_advance \<and> s' = s)) (rmatch r (s, [])) of
        Some (s', c) \<Rightarrow>
          \<lparr>m_start = pos, m_end = pos + (length s - length s'),
           m_text = take (length s - length s') s, m_caps = c\<rparr>
          # scan r (pos + (length s - length s')) (s' = s) s'
      | None \<Rightarrow>
          (case s of [] \<Rightarrow> [] | d # ds \<Rightarrow> scan r (pos + 1) False ds))"
  by pat_completeness auto
termination
  apply (relation "measure (\<lambda>(r, pos, must, s). 2 * length s + (if must then 0 else 1))")
  apply simp
  apply (simp_all only: in_measure prod.case)
  subgoal by simp
  subgoal for r pos must_advance s x2 x y by (rule scan_step [of must_advance s r x y]) simp
  done

declare scan.simps [simp del]

text \<open>
  A match object lies in the text scanned from offset \<open>pos\<close>: its offsets are in range
  and its text is the slice between them.
\<close>

definition occurs_in :: "nat \<Rightarrow> string \<Rightarrow> rematch \<Rightarrow> bool" where
  "occurs_in pos s m = (pos \<le> m_start m \<and> m_start m \<le> m_end m \<and> m_end m \<le> pos + length s \<and>
     m_text m = take (m_end m - m_start m) (drop (m_start m - pos) s))"

text \<open>
  What \<open>re.findall\<close> returns for one match: the whole match when the pattern has no
  group, the text of the group when it has exactly one, and the tuple of all group texts
  when it has several.  A group that took no part in the match gives the empty string.
\<close>

datatype found = Str string | Tup "string list"

definition group_text :: "caps \<Rightarrow> nat \<Rightarrow> string" where
  "group_text c n = (case map_of c n of None \<Rightarrow> [] | Some g \<Rightarrow> g)"

definition found_of :: "regex \<Rightarrow> rematch \<Rightarrow> found" where
  "found_of r m =
     (if ngroups r = 0 then Str (m_text m)
      else if ngroups r = 1 then Str (group_text (m_caps m) 1)
      else Tup (map (group_text (m_caps m)) [1 ..< Suc (ngroups r)]))"

definition finditer :: "regex \<Rightarrow> string \<Rightarrow> rematch list" where
  "finditer r text = scan r 0 False text"

definition findall :: "regex \<Rightarrow> string \<Rightarrow> found list" where
  "findall r text = map (found_of r) (finditer r text)"

fun seqs :: "regex list \<Rightarrow> regex" where
  "seqs [] = Lits []"
| "seqs [r] = r"
| "seqs (r # rs) = Seq r (seqs rs)"

text \<open>\<^verbatim>\<open>https?://(www\.)?tiktok\.com/@[^/]+/video/\d+\<close>\<close>

definition tiktok_re :: regex where
  "tiktok_re = seqs [Lits ''http'', Opt (Lits ''s''), Lits ''://'',
     Opt (Group 1 (Lits ''www.'')), Lits ''tiktok.com/@'', Plus (NotLit CHR ''/''),
     Lits ''/video/'', Plus Digit]"

text \<open>\<^verbatim>\<open>https?://(www\.)?instagram\.com/(p|reel)/[^/]+/\<close>\<close>

definition instagram_re :: regex where
  "instagram_re = seqs [Lits ''http'', Opt (Lits ''s''), Lits ''://'',
     Opt (Group 1 (Lits ''www.'')), Lits ''instagram.com/'',
     Group 2 (Alt (Lits ''p'') (Lits ''reel'')), Lits ''/'', Plus (NotLit CHR ''/''),
     Lits ''/'']"

text \<open>\<^verbatim>\<open>https?://(www\.)?(twitter\.com|x\.com)/[^/]+/status/\d+\<close>\<close>

definition twitter_re :: regex where
  "twitter_re = seqs [Lits ''http'', Opt (Lits ''s''), Lits ''://'',
     Opt (Group 1 (Lits ''www.'')),
     Group 2 (Alt (Lits ''twitter.com'') (Lits ''x.com'')), Lits ''/'',
     Plus (NotLit CHR ''/''), Lits ''/status/'', Plus Digit]"

text \<open>\<^verbatim>\<open>https?://[^/]+\.tumblr\.com/post/\d+\<close>\<close>

definition tumblr_re :: regex where
  "tumblr_re = seqs [Lits ''http'', Opt (Lits ''s''), Lits ''://'',
     Plus (NotLit CHR ''/''), Lits ''.tumblr.com/post/'', Plus Digit]"

text \<open>The dictionary \<open>PLATFORMS\<close>; a Python dict iterates in insertion order.\<close>

definition PLATFORMS :: "(string \<times> regex) list" where
  "PLATFORMS = [(''tiktok'', tiktok_re), (''instagram'', instagram_re),
     (''twitter'', twitter_re), (''tumblr'', tumblr_re)]"

text \<open>
  The scan of \<open>handle_message\<close> as a sequence: the pairs \<open>(platform, url)\<close> for which the
  body of the two nested \<open>for\<close> loops runs, in the order in which it runs.
\<close>

definition link_matcher :: "(string \<times> regex) list \<Rightarrow> string \<Rightarrow> (string \<times> found) list" where
  "link_matcher ps text =
     concat (map (\<lambda>(platform, pattern). map (\<lambda>url. (platform, url)) (findall pattern text)) ps)"

section \<open>Formatting values into f-strings\<close>

text \<open>
  An f-string field \<open>{url}\<close> is \<open>str(url)\<close>: the string itself, or for a tuple the
  \<open>repr\<close> of its members between parentheses.
\<close>

definition hex_digit :: "nat \<Rightarrow> char" where
  "hex_digit n = (if n < 10 then char_of (48 + n) else char_of (87 + n))"

definition printable :: "char \<Rightarrow> bool" where
  "printable c = (let n = (of_char c :: nat) in (32 \<le> n \<and> n < 127) \<or> (161 \<le> n \<and> n \<noteq> 173))"

definition repr_char :: "char \<Rightarrow> char \<Rightarrow> string" where
  "repr_char q c =
     (if c = q \<or> c = CHR 0x5C then [CHR 0x5C, c]
      else if c = CHR 0x09 then [CHR 0x5C, CHR ''t'']
      else if c = CHR 0x0A then [CHR 0x5C, CHR ''n'']
      else if c = CHR 0x0D then [CHR 0x5C, CHR ''r'']
      else if \<not> printable c
        then [CHR 0x5C, CHR ''x'', hex_digit (of_char c div 16), hex_digit (of_char c mod 16)]
      else [c])"

definition py_repr :: "string \<Rightarrow> string" where
  "py_repr s =
     (let q = (if CHR 0x27 \<in> set s \<and> CHR 0x22 \<notin> set s then CHR 0x22 else CHR 0x27)
      in q # concat (map (repr_char q) s) @ [q])"

fun join :: "string \<Rightarrow> string list \<Rightarrow> string" where
  "join sep [] = []"
| "join sep [x] = x"
| "join sep (x # xs) = x @ sep @ join sep xs"

fun py_str :: "found \<Rightarrow> string" where
  "py_str (Str s) = s"
| "py_str (Tup [x]) = ''('' @ py_repr x @ '',)''"
| "py_str (Tup xs) = ''('' @ join '', '' (map py_repr xs) @ '')''"

section \<open>The collaborators of \<open>process_url\<close>\<close>

text \<open>
  Every call that leaves the program is recorded as a step, in call order: the call and
  how it ended.  How a call ends is not decided by the program: it is read from an
  environment that fixes, for each call site of \<open>process_url\<close>, whether the call returns
  (and what) or raises.  An exception is an instance of \<open>Exception\<close> carrying its
  \<open>str()\<close>; signals that are not (\<open>KeyboardInterrupt\<close>, task cancellation) and the
  entering and leaving of the two \<open>with\<close> blocks are outside the model.
\<close>

datatype exc = Exc string

fun str_exc :: "exc \<Rightarrow> string" where
  "str_exc (Exc s) = s"

record message =
  chat_id :: int
  message_id :: int

datatype level = DEBUG | ERROR

datatype event =
    Log level string
  | Reply_text string
  | Makedirs string
  | Extract_info found
  | Prepare_filename
  | Edit_message_text int int string
  | Open_file string
  | Reply_video string string
  | Reply_photo string string
  | Path_exists string
  | Remove string

datatype val = Nothing | Msg message | Path string | Truth bool

datatype outcome = Returned val | Raised exc

type_synonym step = "event \<times> outcome"

record env =
  reply_status :: "exc + message"
  makedirs :: "exc + unit"
  extract_info :: "exc + unit"
  prepare_filename :: "exc + string"
  edit_sending :: "exc + unit"
  open_file :: "exc + unit"
  reply_media :: "exc + unit"
  edit_sent :: "exc + unit"
  edit_unsupported :: "exc + unit"
  edit_to_error :: "exc + unit"
  reply_error :: "exc + unit"
  path_exists :: bool
  remove :: "exc + unit"

type_synonym 'a run = "step list \<times> (exc + 'a)"

text \<open>
  One call, a log line, sequencing that stops at the first exception, and a handler for
  the exception of a block.
\<close>

definition outcome_of :: "('a \<Rightarrow> val) \<Rightarrow> exc + 'a \<Rightarrow> outcome" where
  "outcome_of v r = (case r of Inl e \<Rightarrow> Raised e | Inr x \<Rightarrow> Returned (v x))"

definition call :: "event \<Rightarrow> ('a \<Rightarrow> val) \<Rightarrow> exc + 'a \<Rightarrow> 'a run" where
  "call ev v r = ([(ev, outcome_of v r)], r)"

definition log :: "level \<Rightarrow> string \<Rightarrow> unit run" where
  "log l s = ([(Log l s, Returned Nothing)], Inr ())"

fun andthen :: "'a run \<Rightarrow> ('a \<Rightarrow> 'b run) \<Rightarrow> 'b run" where
  "andthen (t, Inl e) k = (t, Inl e)"
| "andthen (t, Inr x) k = (case k x of (t', r) \<Rightarrow> (t @ t', r))"

fun try_except :: "'a run \<Rightarrow> (exc \<Rightarrow> 'a run) \<Rightarrow> 'a run" where
  "try_except (t, Inr x) h = (t, Inr x)"
| "try_except (t, Inl e) h = (case h e of (t', r) \<Rightarrow> (t @ t', r))"

definition video_exts :: "string list" where
  "video_exts = [''.mp4'', ''.mkv'', ''.webm'']"

definition photo_exts :: "string list" where
  "photo_exts = [''.jpg'', ''.jpeg'', ''.png'', ''.gif'']"

section \<open>\<open>process_url\<close>\<close>

text \<open>Lines 78 to 79: the status message is posted.\<close>

definition start_stage :: "env \<Rightarrow> found \<Rightarrow> string \<Rightarrow> message run" where
  "start_stage env url platform =
     andthen (log DEBUG (''Starting processing for '' @ py_str url)) (\<lambda>_.
     call (Reply_text (''Processing media from '' @ capitalize platform @ ''...'')) Msg
       (reply_status env))"

text \<open>Lines 80 to 87: the download; its value is \<open>file_path\<close>.\<close>

definition download_stage :: "env \<Rightarrow> found \<Rightarrow> string run" where
  "download_stage env url =
     andthen (call (Makedirs ''downloads'') (\<lambda>_. Nothing) (makedirs env)) (\<lambda>_.
     andthen (log DEBUG ''Creating downloads directory'') (\<lambda>_.
     andthen (log DEBUG (''Downloading media from '' @ py_str url)) (\<lambda>_.
     andthen (call (Extract_info url) (\<lambda>_. Nothing) (extract_info env)) (\<lambda>_.
     andthen (call Prepare_filename Path (prepare_filename env)) (\<lambda>file_path.
     andthen (log DEBUG (''Downloaded file: '' @ file_path)) (\<lambda>_.
     ([], Inr file_path)))))))"

text \<open>Lines 89 to 125: the dispatch on the extension of \<open>file_path\<close>.\<close>

definition edit_status :: "message \<Rightarrow> string \<Rightarrow> exc + unit \<Rightarrow> unit run" where
  "edit_status status_message text r =
     call (Edit_message_text (chat_id status_message) (message_id status_message) text)
       (\<lambda>_. Nothing) r"

definition send_stage :: "env \<Rightarrow> found \<Rightarrow> string \<Rightarrow> message \<Rightarrow> string \<Rightarrow> unit run" where
  "send_stage env url platform status_message file_path =
     (if endswith_any file_path video_exts then
        andthen (log DEBUG (''Sending video: '' @ file_path)) (\<lambda>_.
        andthen (edit_status status_message
                   (''Sending video from '' @ capitalize platform @ ''...'') (edit_sending env)) (\<lambda>_.
        andthen (call (Open_file file_path) (\<lambda>_. Nothing) (open_file env)) (\<lambda>_.
        andthen (call (Reply_video file_path
                   (''From '' @ capitalize platform @ '': '' @ py_str url)) (\<lambda>_. Nothing)
                   (reply_media env)) (\<lambda>_.
        andthen (log DEBUG ''Video sent successfully'') (\<lambda>_.
        edit_status status_message ''Video sent successfully!'' (edit_sent env))))))
      else if endswith_any file_path photo_exts then
        andthen (log DEBUG (''Sending photo: '' @ file_path)) (\<lambda>_.
        andthen (edit_status status_message
                   (''Sending photo from '' @ capitalize platform @ ''...'') (edit_sending env)) (\<lambda>_.
        andthen (call (Open_file file_path) (\<lambda>_. Nothing) (open_file env)) (\<lambda>_.
        andthen (call (Reply_photo file_path
                   (''From '' @ capitalize platform @ '': '' @ py_str url)) (\<lambda>_. Nothing)
                   (reply_media env)) (\<lambda>_.
        andthen (log DEBUG ''Photo sent successfully'') (\<lambda>_.
        edit_status status_message ''Photo sent successfully!'' (edit_sent env))))))
      else
        andthen (log DEBUG (''Unsupported media type: '' @ file_path)) (\<lambda>_.
        edit_status status_message (''Sorry, unsupported media type from '' @ platform @ ''.'')
          (edit_unsupported env)))"

text \<open>
  The \<open>try\<close> block, lines 78 to 125.  Besides its steps and its outcome it gives the
  values the locals \<open>status_message\<close> and \<open>file_path\<close> have when it is left.
\<close>

record tried =
  t_steps :: "step list"
  t_status_message :: "message option"
  t_file_path :: "string option"
  t_outcome :: "exc + unit"

definition try_block :: "env \<Rightarrow> found \<Rightarrow> string \<Rightarrow> tried" where
  "try_block env url platform =
     (case start_stage env url platform of
        (t1, Inl e) \<Rightarrow>
          \<lparr>t_steps = t1, t_status_message = None, t_file_path = None, t_outcome = Inl e\<rparr>
      | (t1, Inr status_message) \<Rightarrow>
          (case download_stage env url of
             (t2, Inl e) \<Rightarrow>
               \<lparr>t_steps = t1 @ t2, t_status_message = Some status_message,
                t_file_path = None, t_outcome = Inl e\<rparr>
           | (t2, Inr file_path) \<Rightarrow>
               (case send_stage env url platform status_message file_path of
                  (t3, r) \<Rightarrow>
                    \<lparr>t_steps = t1 @ t2 @ t3, t_status_message = Some status_message,
                     t_file_path = Some file_path, t_outcome = r\<rparr>)))"

text \<open>Line 129.  \<open>file_path and ...\<close> is false for \<open>None\<close> and for the empty string.\<close>

definition error_message :: "string \<Rightarrow> string option \<Rightarrow> string" where
  "error_message platform file_path =
     ''Error sending ''
     @ (if (case file_path of None \<Rightarrow> False
            | Some p \<Rightarrow> p \<noteq> [] \<and> endswith_any p video_exts)
        then ''video'' else ''media'')
     @ '' from '' @ capitalize platform @ ''. Please try again or use a different link.''"

text \<open>The \<open>except Exception as e\<close> clause, lines 127 to 141.\<close>

definition except_clause ::
  "env \<Rightarrow> found \<Rightarrow> string \<Rightarrow> exc \<Rightarrow> message option \<Rightarrow> string option \<Rightarrow> unit run" where
  "except_clause env url platform e status_message file_path =
     andthen (log ERROR (''Error processing '' @ py_str url @ '': '' @ str_exc e)) (\<lambda>_.
     (case status_message of
        Some m \<Rightarrow>
          try_except (edit_status m (error_message platform file_path) (edit_to_error env))
            (\<lambda>edit_error.
               andthen (log ERROR (''Failed to edit message: '' @ str_exc edit_error)) (\<lambda>_.
               call (Reply_text (error_message platform file_path)) (\<lambda>_. Nothing)
                 (reply_error env)))
      | None \<Rightarrow>
          call (Reply_text (error_message platform file_path)) (\<lambda>_. Nothing) (reply_error env)))"

text \<open>The \<open>finally\<close> clause, lines 143 to 146.\<close>

definition finally_clause :: "env \<Rightarrow> string option \<Rightarrow> unit run" where
  "finally_clause env file_path =
     (case file_path of
        None \<Rightarrow> ([], Inr ())
      | Some p \<Rightarrow>
          if p = [] then ([], Inr ())
          else
            andthen (call (Path_exists p) Truth (Inr (path_exists env))) (\<lambda>found.
            if found then
              andthen (log DEBUG (''Cleaning up file: '' @ p)) (\<lambda>_.
              call (Remove p) (\<lambda>_. Nothing) (remove env))
            else ([], Inr ())))"

text \<open>
  The whole function.  An exception of the \<open>try\<close> block is handled by the \<open>except\<close>
  clause; the \<open>finally\<close> clause runs on every path; an exception raised in it replaces
  the pending one, otherwise the outcome of the \<open>except\<close> clause stands.
\<close>

definition process_url :: "env \<Rightarrow> found \<Rightarrow> string \<Rightarrow> unit run" where
  "process_url env url platform =
     (let tb = try_block env url platform in
      case try_except (t_steps tb, t_outcome tb)
             (\<lambda>e. except_clause env url platform e (t_status_message tb) (t_file_path tb)) of
        (t', r') \<Rightarrow>
          (case finally_clause env (t_file_path tb) of
             (t'', Inl e) \<Rightarrow> (t' @ t'', Inl e)
           | (t'', Inr _) \<Rightarrow> (t' @ t'', r')))"

section \<open>\<open>handle_message\<close>\<close>

text \<open>
  The handler awaits one \<open>process_url\<close> after the other.  The \<open>k\<close>-th call (counted from
  0) runs in the environment \<open>envs k\<close>, and its events are tagged with \<open>k\<close>.  An exception
  that leaves a call leaves the handler: the loops have no \<open>try\<close>.
\<close>

datatype hevent = Handler step | Job nat step

fun for_urls :: "(nat \<Rightarrow> env) \<Rightarrow> string \<Rightarrow> found list \<Rightarrow> nat \<Rightarrow> hevent list \<times> (exc + nat)" where
  "for_urls envs platform [] k = ([], Inr k)"
| "for_urls envs platform (url # urls) k =
     (case process_url (envs k) url platform of
        (t, Inl e) \<Rightarrow>
          (Handler (Log DEBUG (''Processing URL: '' @ py_str url @ '' from '' @ platform),
             Returned Nothing)
             # map (Job k) t, Inl e)
      | (t, Inr _) \<Rightarrow>
          (case for_urls envs platform urls (Suc k) of
             (t', r) \<Rightarrow>
               (Handler (Log DEBUG (''Processing URL: '' @ py_str url @ '' from '' @ platform),
             Returned Nothing)
                  # map (Job k) t @ t', r)))"

fun for_platforms ::
  "(nat \<Rightarrow> env) \<Rightarrow> (string \<times> regex) list \<Rightarrow> string \<Rightarrow> nat \<Rightarrow> hevent list \<times> (exc + nat)" where
  "for_platforms envs [] message_text k = ([], Inr k)"
| "for_platforms envs ((platform, pattern) # ps) message_text k =
     (case for_urls envs platform (findall pattern message_text) k of
        (t, Inl e) \<Rightarrow> (t, Inl e)
      | (t, Inr k') \<Rightarrow>
          (case for_platforms envs ps message_text k' of (t', r) \<Rightarrow> (t @ t', r)))"

text \<open>\<open>update.message.text\<close> is \<open>None\<close> or a string; \<open>not message_text\<close> holds for both
  \<open>None\<close> and the empty string.\<close>

definition handle_message :: "(nat \<Rightarrow> env) \<Rightarrow> string option \<Rightarrow> hevent list \<times> (exc + unit)" where
  "handle_message envs message_text =
     (case message_text of
        None \<Rightarrow> ([Handler (Log DEBUG ''Received message: None'', Returned Nothing)], Inr ())
      | Some text \<Rightarrow>
          if text = [] then ([Handler (Log DEBUG ''Received message: '', Returned Nothing)], Inr ())
          else
            (case for_platforms envs PLATFORMS text 0 of
               (t, r) \<Rightarrow>
                 (Handler (Log DEBUG (''Received message: '' @ text), Returned Nothing) # t,
                  case r of Inl e \<Rightarrow> Inl e | Inr _ \<Rightarrow> Inr ())))"

section \<open>Reading a trace\<close>

text \<open>Kinds of calls.\<close>

fun is_remove :: "event \<Rightarrow> bool" where
  "is_remove (Remove p) = True"
| "is_remove ev = False"

fun is_edit :: "event \<Rightarrow> bool" where
  "is_edit (Edit_message_text c i s) = True"
| "is_edit ev = False"

fun is_reply_text :: "event \<Rightarrow> bool" where
  "is_reply_text (Reply_text s) = True"
| "is_reply_text ev = False"

fun is_send :: "event \<Rightarrow> bool" where
  "is_send (Reply_video p c) = True"
| "is_send (Reply_photo p c) = True"
| "is_send (Open_file p) = True"
| "is_send ev = False"

fun is_error_log :: "event \<Rightarrow> bool" where
  "is_error_log (Log ERROR s) = True"
| "is_error_log ev = False"

definition calls :: "(event \<Rightarrow> bool) \<Rightarrow> step list \<Rightarrow> event list" where
  "calls kind t = filter kind (map fst t)"

text \<open>
  What the chat shows.  An edit that returned replaces the text of the message it
  addresses; an edit that raised changes nothing.  The status message of a job is the
  message its first \<open>reply_text\<close> call returned; \<open>status_text\<close> is the text it shows
  after the job, and \<open>None\<close> when that call raised.
\<close>

fun shown :: "message \<Rightarrow> string \<Rightarrow> step list \<Rightarrow> string" where
  "shown m s [] = s"
| "shown m s ((Edit_message_text c i s', Returned v) # t) =
     shown m (if c = chat_id m \<and> i = message_id m then s' else s) t"
| "shown m s (x # t) = shown m s t"

fun status_text :: "step list \<Rightarrow> string option" where
  "status_text [] = None"
| "status_text ((Reply_text s, Returned (Msg m)) # t) = Some (shown m s t)"
| "status_text ((Reply_text s, out) # t) = None"
| "status_text (x # t) = status_text t"

text \<open>Calls that touch neither the chat nor the file, and are no error log.\<close>

definition silent :: "event \<Rightarrow> bool" where
  "silent ev = (\<not> is_remove ev \<and> \<not> is_edit ev \<and> \<not> is_reply_text ev \<and> \<not> is_send ev
     \<and> \<not> is_error_log ev)"

text \<open>Sample environments: every call returns; variants are record updates of it.\<close>

definition env_ok :: env where
  "env_ok = \<lparr>reply_status = Inr \<lparr>chat_id = 42, message_id = 7\<rparr>, makedirs = Inr (),
     extract_info = Inr (), prepare_filename = Inr ''downloads/987.mp4'',
     edit_sending = Inr (), open_file = Inr (), reply_media = Inr (), edit_sent = Inr (),
     edit_unsupported = Inr (), edit_to_error = Inr (), reply_error = Inr (),
     path_exists = True, remove = Inr ()\<rparr>"

definition env_file_missing :: env where
  "env_file_missing = env_ok\<lparr>open_file := Inl (Exc ''No such file or directory''),
     path_exists := False\<rparr>"

definition env_remove_fails :: env where
  "env_remove_fails = env_ok\<lparr>remove := Inl (Exc ''Permission denied'')\<rparr>"

definition env_report_fails :: env where
  "env_report_fails = env_ok\<lparr>extract_info := Inl (Exc ''network error''),
     edit_to_error := Inl (Exc ''Message can not be edited''),
     reply_error := Inl (Exc ''Timed out'')\<rparr>"

definition env_edit_fails :: env where
  "env_edit_fails = env_ok\<lparr>extract_info := Inl (Exc ''network error''),
     edit_to_error := Inl (Exc ''Message can not be edited'')\<rparr>"

text \<open>An edit of a message to a text that starts with \<open>Sending\<close>.\<close>

fun is_sending_edit :: "event \<Rightarrow> bool" where
  "is_sending_edit (Edit_message_text c i s) = (take 8 s = ''Sending '')"
| "is_sending_edit ev = False"

text \<open>The messages that \<open>reply_text\<close> calls returned to be kept as status message.\<close>

fun status_messages :: "step list \<Rightarrow> message list" where
  "status_messages [] = []"
| "status_messages ((ev, Returned (Msg m)) # t) = m # status_messages t"
| "status_messages (x # t) = status_messages t"

definition env_fetch_fails :: env where
  "env_fetch_fails = env_ok\<lparr>extract_info := Inl (Exc ''network error'')\<rparr>"

definition env_prepare_fails :: env where
  "env_prepare_fails = env_ok\<lparr>prepare_filename := Inl (Exc ''no file name'')\<rparr>"

definition env_prepare_edit_fails :: env where
  "env_prepare_edit_fails =
     env_prepare_fails\<lparr>edit_to_error := Inl (Exc ''Message to edit not found'')\<rparr>"

definition env_no_status :: env where
  "env_no_status = env_ok\<lparr>reply_status := Inl (Exc ''Timed out'')\<rparr>"

definition env_unsupported :: env where
  "env_unsupported = env_ok\<lparr>prepare_filename := Inr ''downloads/987.m4a''\<rparr>"

definition env_unsupported_edit_fails :: env where
  "env_unsupported_edit_fails = env_unsupported\<lparr>edit_unsupported := Inl (Exc ''Timed out'')\<rparr>"

text \<open>
  The part of the handler's trace that belongs to one job: the handler's log line and
  then all steps of that call of \<open>process_url\<close>, tagged with the job number.  The blocks
  of a list of jobs follow each other; \<open>all_return\<close> says that every job of a list
  returned without an exception.
\<close>

definition job_block :: "(nat \<Rightarrow> env) \<Rightarrow> nat \<Rightarrow> string \<times> found \<Rightarrow> hevent list" where
  "job_block envs k j =
     Handler (Log DEBUG (''Processing URL: '' @ py_str (snd j) @ '' from '' @ fst j),
       Returned Nothing)
     # map (Job k) (fst (process_url (envs k) (snd j) (fst j)))"

fun job_blocks :: "(nat \<Rightarrow> env) \<Rightarrow> nat \<Rightarrow> (string \<times> found) list \<Rightarrow> hevent list" where
  "job_blocks envs k [] = []"
| "job_blocks envs k (j # js) = job_block envs k j @ job_blocks envs (Suc k) js"

fun all_return :: "(nat \<Rightarrow> env) \<Rightarrow> nat \<Rightarrow> (string \<times> found) list \<Rightarrow> bool" where
  "all_return envs k [] = True"
| "all_return envs k (j # js) =
     (snd (process_url (envs k) (snd j) (fst j)) = Inr () \<and> all_return envs (Suc k) js)"

text \<open>
  The jobs that are started, and how the loops end, when the calls are made one after
  the other and the first exception ends the run.
\<close>

fun started :: "(nat \<Rightarrow> env) \<Rightarrow> nat \<Rightarrow> (string \<times> found) list \<Rightarrow> (string \<times> found) list" where
  "started envs k [] = []"
| "started envs k (j # js) =
     j # (if snd (process_url (envs k) (snd j) (fst j)) = Inr () then started envs (Suc k) js
          else [])"

fun jobs_outcome :: "(nat \<Rightarrow> env) \<Rightarrow> nat \<Rightarrow> (string \<times> found) list \<Rightarrow> exc + nat" where
  "jobs_outcome envs k [] = Inr k"
| "jobs_outcome envs k (j # js) =
     (case snd (process_url (envs k) (snd j) (fst j)) of
        Inl e \<Rightarrow> Inl e
      | Inr _ \<Rightarrow> jobs_outcome envs (Suc k) js)"

section \<open>Properties of the scanner\<close>

lemma scan_unfold:
  "scan r pos must s =
     (case find (\<lambda>(s', c). \<not> (must \<and> s' = s)) (rmatch r (s, [])) of
        Some (s', c) \<Rightarrow>
          \<lparr>m_start = pos, m_end = pos + (length s - length s'),
           m_text = take (length s - length s') s, m_caps = c\<rparr>
          # scan r (pos + (length s - length s')) (s' = s) s'
      | None \<Rightarrow>
          (case s of [] \<Rightarrow> [] | d # ds \<Rightarrow> scan r (pos + 1) False ds))"
  by (rule scan.simps)

lemma occurs_in_shift:
  assumes "occurs_in (pos + n) (drop n s) m" "n \<le> length s"
  shows "occurs_in pos s m"
proof -
  from assms have "pos + n \<le> m_start m" by (simp add: occurs_in_def)
  then have "m_start m - (pos + n) + n = m_start m - pos" by simp
  with assms show ?thesis by (auto simp: occurs_in_def)
qed

lemma scan_occurs_in: "list_all (occurs_in pos s) (scan r pos must s)"
proof (induction r pos must s rule: scan.induct)
  case (1 r pos must s)
  show ?case
  proof (cases "find (\<lambda>(s', c). \<not> (must \<and> s' = s)) (rmatch r (s, []))")
    case None
    show ?thesis
    proof (cases s)
      case Nil
      with None show ?thesis by (subst scan_unfold) simp
    next
      case (Cons d ds)
      from "1.IH"(1) [OF None Cons] have "list_all (occurs_in (pos + 1) (drop 1 s)) (scan r (pos + 1) False ds)"
        by (simp add: Cons)
      then have "list_all (occurs_in pos s) (scan r (pos + 1) False ds)"
        using occurs_in_shift [of pos 1 s] by (auto simp: list_all_iff Cons)
      with None Cons show ?thesis by (subst scan_unfold) simp
    qed
  next
    case (Some x)
    obtain s' c where x: "x = (s', c)" by (cases x)
    from Some x have "(s', c) \<in> set (rmatch r (s, []))" by (auto dest: find_Some_mem)
    then have "suffix s' s" by (rule rmatch_suffix)
    then obtain p where p: "s = p @ s'" by (auto simp: suffix_def)
    then have n: "length s - length s' = length p" and d: "drop (length p) s = s'" by simp_all
    from "1.IH"(2) [OF Some x [symmetric]]
    have "list_all (occurs_in (pos + length p) (drop (length p) s)) (scan r (pos + (length s - length s')) (s' = s) s')"
      by (simp add: n d)
    then have "list_all (occurs_in pos s) (scan r (pos + (length s - length s')) (s' = s) s')"
      using occurs_in_shift [of pos "length p" s] by (auto simp: list_all_iff n d p)
    moreover have "occurs_in pos s \<lparr>m_start = pos, m_end = pos + (length s - length s'),
           m_text = take (length s - length s') s, m_caps = c\<rparr>"
      by (simp add: occurs_in_def p)
    ultimately show ?thesis using Some x by (subst scan_unfold) simp
  qed
qed

lemma scan_sorted: "sorted_wrt (\<lambda>a b. m_end a \<le> m_start b) (scan r pos must s)"
proof (induction r pos must s rule: scan.induct)
  case (1 r pos must s)
  show ?case
  proof (cases "find (\<lambda>(s', c). \<not> (must \<and> s' = s)) (rmatch r (s, []))")
    case None
    show ?thesis
    proof (cases s)
      case Nil
      with None show ?thesis by (subst scan_unfold) simp
    next
      case (Cons d ds)
      from "1.IH"(1) [OF None Cons] None Cons show ?thesis by (subst scan_unfold) simp
    qed
  next
    case (Some x)
    obtain s' c where x: "x = (s', c)" by (cases x)
    have "list_all (occurs_in (pos + (length s - length s')) s') (scan r (pos + (length s - length s')) (s' = s) s')"
      by (rule scan_occurs_in)
    then have "\<forall>m \<in> set (scan r (pos + (length s - length s')) (s' = s) s'). pos + (length s - length s') \<le> m_start m"
      by (simp add: list_all_iff occurs_in_def)
    with "1.IH"(2) [OF Some x [symmetric]] Some x show ?thesis by (subst scan_unfold) simp
  qed
qed


section \<open>Properties of the stages\<close>

lemma outcome_of_simps [simp]:
  "outcome_of v (Inl e) = Raised e" "outcome_of v (Inr x) = Returned (v x)"
  by (simp_all add: outcome_of_def)

lemma andthen_log [simp]:
  "andthen (log l s) k = ((Log l s, Returned Nothing) # fst (k ()), snd (k ()))"
  by (simp add: log_def split: prod.splits)

lemma andthen_call_Inr [simp]:
  "andthen (call ev v (Inr x)) k = ((ev, Returned (v x)) # fst (k x), snd (k x))"
  by (simp add: call_def outcome_of_def split: prod.splits)

lemma andthen_call_Inl [simp]: "andthen (call ev v (Inl e)) k = ([(ev, Raised e)], Inl e)"
  by (simp add: call_def outcome_of_def)

lemma call_Inr [simp]: "call ev v (Inr x) = ([(ev, Returned (v x))], Inr x)"
  by (simp add: call_def outcome_of_def)

lemma call_Inl [simp]: "call ev v (Inl e) = ([(ev, Raised e)], Inl e)"
  by (simp add: call_def outcome_of_def)

lemma calls_append [simp]: "calls kind (t @ u) = calls kind t @ calls kind u"
  by (simp add: calls_def)

lemma calls_Cons [simp]:
  "calls kind (x # t) = (if kind (fst x) then fst x # calls kind t else calls kind t)"
  by (simp add: calls_def)

lemma calls_Nil [simp]: "calls kind [] = []"
  by (simp add: calls_def)

lemma start_stage_steps:
  "start_stage env url platform =
     ([(Log DEBUG (''Starting processing for '' @ py_str url), Returned Nothing),
       (Reply_text (''Processing media from '' @ capitalize platform @ ''...''),
        outcome_of Msg (reply_status env))], reply_status env)"
  by (simp add: start_stage_def call_def)

text \<open>The download stage: when it gives a path, and that it talks to nobody in the chat.\<close>

lemma download_stage_Inr:
  "snd (download_stage env url) = Inr p \<longleftrightarrow>
     makedirs env = Inr () \<and> extract_info env = Inr () \<and> prepare_filename env = Inr p"
  by (cases "makedirs env"; cases "extract_info env"; cases "prepare_filename env")
    (simp_all add: download_stage_def)

lemma download_stage_Inl:
  "snd (download_stage env url) = Inl e \<longleftrightarrow>
     makedirs env = Inl e
     \<or> makedirs env = Inr () \<and> extract_info env = Inl e
     \<or> makedirs env = Inr () \<and> extract_info env = Inr () \<and> prepare_filename env = Inl e"
  by (cases "makedirs env"; cases "extract_info env"; cases "prepare_filename env")
    (simp_all add: download_stage_def)

lemma download_stage_silent: "list_all (\<lambda>st. silent (fst st)) (fst (download_stage env url))"
  by (cases "makedirs env"; cases "extract_info env"; cases "prepare_filename env")
    (simp_all add: download_stage_def silent_def)

lemma silent_calls:
  assumes "list_all (\<lambda>st. silent (fst st)) t"
  shows "calls is_remove t = []" "calls is_edit t = []" "calls is_reply_text t = []"
    "calls is_send t = []" "calls is_error_log t = []"
  using assms by (induction t) (auto simp: silent_def)

lemmas download_stage_calls = silent_calls [OF download_stage_silent]


text \<open>The send stage removes nothing, posts no text, and edits only the status message.\<close>

lemma send_stage_calls:
  "calls is_remove (fst (send_stage env url platform m p)) = []"
  "calls is_reply_text (fst (send_stage env url platform m p)) = []"
  "calls is_error_log (fst (send_stage env url platform m p)) = []"
  "list_all (\<lambda>ev. \<exists>s. ev = Edit_message_text (chat_id m) (message_id m) s)
     (calls is_edit (fst (send_stage env url platform m p)))"
  by (cases "edit_sending env"; cases "open_file env"; cases "reply_media env";
      cases "edit_sent env"; cases "edit_unsupported env";
      simp add: send_stage_def edit_status_def)+

lemma send_stage_unsupported:
  assumes "\<not> endswith_any p video_exts" "\<not> endswith_any p photo_exts"
  shows "send_stage env url platform m p =
     ([(Log DEBUG (''Unsupported media type: '' @ p), Returned Nothing),
       (Edit_message_text (chat_id m) (message_id m)
          (''Sorry, unsupported media type from '' @ platform @ ''.''),
        outcome_of (\<lambda>_. Nothing) (edit_unsupported env))], edit_unsupported env)"
  using assms by (simp add: send_stage_def edit_status_def call_def)

text \<open>The three ways through the \<open>except\<close> clause.\<close>

lemma except_clause_None:
  "except_clause env url platform e None fp =
     ([(Log ERROR (''Error processing '' @ py_str url @ '': '' @ str_exc e), Returned Nothing),
       (Reply_text (error_message platform fp), outcome_of (\<lambda>_. Nothing) (reply_error env))],
      reply_error env)"
  by (simp add: except_clause_def call_def)

lemma except_clause_edited:
  assumes "edit_to_error env = Inr ()"
  shows "except_clause env url platform e (Some m) fp =
     ([(Log ERROR (''Error processing '' @ py_str url @ '': '' @ str_exc e), Returned Nothing),
       (Edit_message_text (chat_id m) (message_id m) (error_message platform fp),
        Returned Nothing)], Inr ())"
  using assms by (simp add: except_clause_def edit_status_def)

lemma except_clause_fallback:
  assumes "edit_to_error env = Inl e2"
  shows "except_clause env url platform e (Some m) fp =
     ([(Log ERROR (''Error processing '' @ py_str url @ '': '' @ str_exc e), Returned Nothing),
       (Edit_message_text (chat_id m) (message_id m) (error_message platform fp), Raised e2),
       (Log ERROR (''Failed to edit message: '' @ str_exc e2), Returned Nothing),
       (Reply_text (error_message platform fp), outcome_of (\<lambda>_. Nothing) (reply_error env))],
      reply_error env)"
  using assms by (simp add: except_clause_def edit_status_def call_def)

lemma except_clause_calls:
  "calls is_remove (fst (except_clause env url platform e sm fp)) = []"
  "calls is_send (fst (except_clause env url platform e sm fp)) = []"
  by (cases sm; cases "edit_to_error env";
      simp add: except_clause_None except_clause_edited except_clause_fallback)+

text \<open>The \<open>finally\<close> clause.\<close>

lemma finally_clause_remove:
  assumes "p \<noteq> []" "path_exists env"
  shows "finally_clause env (Some p) =
     ([(Path_exists p, Returned (Truth True)),
       (Log DEBUG (''Cleaning up file: '' @ p), Returned Nothing),
       (Remove p, outcome_of (\<lambda>_. Nothing) (remove env))], remove env)"
  using assms by (simp add: finally_clause_def call_def)

lemma finally_clause_absent:
  assumes "p \<noteq> []" "\<not> path_exists env"
  shows "finally_clause env (Some p) = ([(Path_exists p, Returned (Truth False))], Inr ())"
  using assms by (simp add: finally_clause_def)

lemma finally_clause_nothing:
  "finally_clause env None = ([], Inr ())" "finally_clause env (Some []) = ([], Inr ())"
  by (simp_all add: finally_clause_def)

text \<open>The \<open>try\<close> block, by the stage at which it is left.\<close>

lemma try_block_no_status:
  assumes "reply_status env = Inl e"
  shows "try_block env url platform =
     \<lparr>t_steps = fst (start_stage env url platform), t_status_message = None,
      t_file_path = None, t_outcome = Inl e\<rparr>"
  using assms by (simp add: try_block_def start_stage_steps)

lemma try_block_no_file:
  assumes "reply_status env = Inr m" "snd (download_stage env url) = Inl e"
  shows "try_block env url platform =
     \<lparr>t_steps = fst (start_stage env url platform) @ fst (download_stage env url),
      t_status_message = Some m, t_file_path = None, t_outcome = Inl e\<rparr>"
  using assms by (cases "download_stage env url") (simp add: try_block_def start_stage_steps)

lemma try_block_file:
  assumes "reply_status env = Inr m" "snd (download_stage env url) = Inr p"
  shows "try_block env url platform =
     \<lparr>t_steps = fst (start_stage env url platform) @ fst (download_stage env url)
        @ fst (send_stage env url platform m p),
      t_status_message = Some m, t_file_path = Some p,
      t_outcome = snd (send_stage env url platform m p)\<rparr>"
  using assms
  by (cases "download_stage env url"; cases "send_stage env url platform m p")
    (simp add: try_block_def start_stage_steps)

text \<open>The whole function, by the outcome of the \<open>try\<close> block.\<close>

lemma process_url_raised:
  assumes "t_outcome (try_block env url platform) = Inl e"
  shows "process_url env url platform =
     (t_steps (try_block env url platform)
        @ fst (except_clause env url platform e
                 (t_status_message (try_block env url platform))
                 (t_file_path (try_block env url platform)))
        @ fst (finally_clause env (t_file_path (try_block env url platform))),
      case snd (finally_clause env (t_file_path (try_block env url platform))) of
        Inl e' \<Rightarrow> Inl e'
      | Inr _ \<Rightarrow>
          snd (except_clause env url platform e
                 (t_status_message (try_block env url platform))
                 (t_file_path (try_block env url platform))))"
  using assms by (simp add: process_url_def Let_def split: prod.splits sum.splits)

lemma process_url_returned:
  assumes "t_outcome (try_block env url platform) = Inr ()"
  shows "process_url env url platform =
     (t_steps (try_block env url platform)
        @ fst (finally_clause env (t_file_path (try_block env url platform))),
      case snd (finally_clause env (t_file_path (try_block env url platform))) of
        Inl e' \<Rightarrow> Inl e'
      | Inr _ \<Rightarrow> Inr ())"
  using assms by (simp add: process_url_def Let_def split: prod.splits sum.splits)

lemma start_stage_calls:
  "calls is_remove (fst (start_stage env url platform)) = []"
  "calls is_edit (fst (start_stage env url platform)) = []"
  "calls is_send (fst (start_stage env url platform)) = []"
  "calls is_error_log (fst (start_stage env url platform)) = []"
  by (simp_all add: start_stage_steps)

text \<open>A pattern without a group gives the whole match, as the Tumblr pattern does.\<close>

lemma findall_no_group:
  "ngroups r = 0 \<Longrightarrow> findall r text = map (\<lambda>m. Str (m_text m)) (finditer r text)"
  by (simp add: findall_def found_of_def)

lemma tumblr_findall_whole_match:
  "findall tumblr_re text = map (\<lambda>m. Str (m_text m)) (finditer tumblr_re text)"
  by (rule findall_no_group) (simp add: tumblr_re_def)

section \<open>The claims\<close>

text \<open>
  C1.  The claim: a text with one well-formed URL of a platform gives exactly one pair
  with the platform tag and the full matched URL; for the TikTok example of the
  specification the pair is the platform with the whole URL.  The code gives something
  else at that very example: the TikTok pattern has one capturing group, so
  \<open>re.findall\<close> returns the text of the group, and the pair carries \<open>www.\<close> in place of
  the URL.
\<close>

theorem link_matcher_tiktok_example:
  "link_matcher PLATFORMS
     ''check this https://www.tiktok.com/@someuser/video/1234567890123456789''
   = [(''tiktok'', Str ''www.'')]"
  by code_simp

text \<open>
  C9.  The pairs come platform by platform in the declared order tiktok, instagram,
  twitter, tumblr, and within one platform they are the items of the matches that the
  scanner finds from left to right: every match is a slice of the text, and each match
  ends before or where the next one starts.
\<close>

theorem link_matcher_order:
  "link_matcher PLATFORMS text =
     map (Pair ''tiktok'') (findall tiktok_re text)
     @ map (Pair ''instagram'') (findall instagram_re text)
     @ map (Pair ''twitter'') (findall twitter_re text)
     @ map (Pair ''tumblr'') (findall tumblr_re text)
   \<and> (\<forall>pattern.
         findall pattern text = map (found_of pattern) (finditer pattern text)
       \<and> list_all (occurs_in 0 text) (finditer pattern text)
       \<and> sorted_wrt (\<lambda>a b. m_end a \<le> m_start b) (finditer pattern text))"
  by (simp add: link_matcher_def PLATFORMS_def findall_def finditer_def scan_occurs_in
      scan_sorted)

lemma fetched_block:
  assumes "reply_status env = Inr m" "makedirs env = Inr ()" "extract_info env = Inr ()"
    "prepare_filename env = Inr p"
  shows "try_block env url platform =
     \<lparr>t_steps = fst (start_stage env url platform) @ fst (download_stage env url)
        @ fst (send_stage env url platform m p),
      t_status_message = Some m, t_file_path = Some p,
      t_outcome = snd (send_stage env url platform m p)\<rparr>"
  using assms by (simp add: try_block_file download_stage_Inr)

lemma finally_clause_removals:
  "calls is_remove (fst (finally_clause env (Some p))) =
     (if p \<noteq> [] \<and> path_exists env then [Remove p] else [])"
  by (cases "p = []"; cases "path_exists env")
    (simp_all add: finally_clause_remove finally_clause_absent finally_clause_nothing)

text \<open>
  C2.  The claim asks for exactly one removal attempt whenever the download gave a path.
  The \<open>finally\<close> clause removes only a path that is non-empty and that
  \<open>os.path.exists\<close> reports present; then there is exactly one \<open>os.remove\<close>, for that
  path, and it is the last step of the job, after every send and edit, on all paths
  through the \<open>try\<close> and \<open>except\<close> blocks.  Otherwise there is none.
\<close>

theorem cleanup_once_after_all:
  assumes "reply_status env = Inr m" "makedirs env = Inr ()" "extract_info env = Inr ()"
    "prepare_filename env = Inr p"
  shows "if p \<noteq> [] \<and> path_exists env
         then calls is_remove (fst (process_url env url platform)) = [Remove p]
            \<and> fst (last (fst (process_url env url platform))) = Remove p
         else calls is_remove (fst (process_url env url platform)) = []"
proof -
  note tb = fetched_block [OF assms, of url platform]
  show ?thesis
  proof (cases "snd (send_stage env url platform m p)")
    case (Inl e)
    with tb have "t_outcome (try_block env url platform) = Inl e" by simp
    from process_url_raised [OF this] tb show ?thesis
      by (simp add: start_stage_calls download_stage_calls send_stage_calls
          except_clause_calls finally_clause_removals finally_clause_remove)
  next
    case (Inr u)
    with tb have "t_outcome (try_block env url platform) = Inr ()" by simp
    from process_url_returned [OF this] tb show ?thesis
      by (simp add: start_stage_calls download_stage_calls send_stage_calls
          finally_clause_removals finally_clause_remove)
  qed
qed

theorem cleanup_once_after_all_witness:
  "reply_status env_ok = Inr \<lparr>chat_id = 42, message_id = 7\<rparr> \<and> makedirs env_ok = Inr ()
   \<and> extract_info env_ok = Inr () \<and> prepare_filename env_ok = Inr ''downloads/987.mp4''
   \<and> path_exists env_ok
   \<and> calls is_remove (fst (process_url env_ok (Str ''https://a.tumblr.com/post/987'') ''tumblr''))
       = [Remove ''downloads/987.mp4'']
   \<and> fst (last (fst (process_url env_ok (Str ''https://a.tumblr.com/post/987'') ''tumblr'')))
       = Remove ''downloads/987.mp4''"
  using cleanup_once_after_all [of env_ok "\<lparr>chat_id = 42, message_id = 7\<rparr>"
      "''downloads/987.mp4''" "Str ''https://a.tumblr.com/post/987''" "''tumblr''"]
  by (simp add: env_ok_def)

text \<open>
  The download gave \<open>downloads/987.mp4\<close>, the file is not there when the job ends: no
  removal is attempted.
\<close>

theorem cleanup_skipped_counterexample:
  "reply_status env_file_missing = Inr \<lparr>chat_id = 42, message_id = 7\<rparr>
   \<and> makedirs env_file_missing = Inr () \<and> extract_info env_file_missing = Inr ()
   \<and> prepare_filename env_file_missing = Inr ''downloads/987.mp4''
   \<and> calls is_remove
        (fst (process_url env_file_missing (Str ''https://a.tumblr.com/post/987'') ''tumblr''))
       = []"
  by code_simp

lemma for_urls_raised:
  assumes "snd (process_url (envs k) url platform) = Inl e"
  shows "snd (for_urls envs platform (url # urls) k) = Inl e"
  using assms by (cases "process_url (envs k) url platform") simp

text \<open>
  C3.  The claim says that a failing deletion is logged and goes no further.  The
  \<open>finally\<close> clause has no handler: when \<open>os.remove\<close> raises, the exception is the outcome
  of \<open>process_url\<close>, the removal is the last step of the job (nothing is logged or sent
  after it), and the loop of \<open>handle_message\<close> is left with the same exception, so the
  remaining URLs of the message are not processed.
\<close>

theorem remove_failure_propagates:
  assumes "reply_status env = Inr m" "makedirs env = Inr ()" "extract_info env = Inr ()"
    "prepare_filename env = Inr p" "p \<noteq> []" "path_exists env" "remove env = Inl e"
  shows "snd (process_url env url platform) = Inl e
       \<and> last (fst (process_url env url platform)) = (Remove p, Raised e)
       \<and> (\<forall>envs urls k. envs k = env \<longrightarrow> snd (for_urls envs platform (url # urls) k) = Inl e)"
proof -
  note tb = fetched_block [OF assms(1-4), of url platform]
  have run: "snd (process_url env url platform) = Inl e
       \<and> last (fst (process_url env url platform)) = (Remove p, Raised e)"
  proof (cases "snd (send_stage env url platform m p)")
    case (Inl e')
    with tb have "t_outcome (try_block env url platform) = Inl e'" by simp
    from process_url_raised [OF this] tb assms(5-7) show ?thesis
      by (simp add: finally_clause_remove)
  next
    case (Inr u)
    with tb have "t_outcome (try_block env url platform) = Inr ()" by simp
    from process_url_returned [OF this] tb assms(5-7) show ?thesis
      by (simp add: finally_clause_remove)
  qed
  then show ?thesis using for_urls_raised by blast
qed

theorem remove_failure_propagates_witness:
  "reply_status env_remove_fails = Inr \<lparr>chat_id = 42, message_id = 7\<rparr>
   \<and> makedirs env_remove_fails = Inr () \<and> extract_info env_remove_fails = Inr ()
   \<and> prepare_filename env_remove_fails = Inr ''downloads/987.mp4''
   \<and> path_exists env_remove_fails \<and> remove env_remove_fails = Inl (Exc ''Permission denied'')
   \<and> snd (process_url env_remove_fails (Str ''https://a.tumblr.com/post/987'') ''tumblr'')
       = Inl (Exc ''Permission denied'')
   \<and> snd (for_urls (\<lambda>k. env_remove_fails) ''tumblr''
        [Str ''https://a.tumblr.com/post/987'', Str ''https://b.tumblr.com/post/1''] 0)
       = Inl (Exc ''Permission denied'')"
proof -
  have h: "reply_status env_remove_fails = Inr \<lparr>chat_id = 42, message_id = 7\<rparr>"
    "makedirs env_remove_fails = Inr ()" "extract_info env_remove_fails = Inr ()"
    "prepare_filename env_remove_fails = Inr ''downloads/987.mp4''"
    "''downloads/987.mp4'' \<noteq> []" "path_exists env_remove_fails"
    "remove env_remove_fails = Inl (Exc ''Permission denied'')"
    by (simp_all add: env_remove_fails_def env_ok_def)
  note c = remove_failure_propagates [OF h, of "Str ''https://a.tumblr.com/post/987''" "''tumblr''"]
  note c1 = c [THEN conjunct1]
  note c3 = c [THEN conjunct2, THEN conjunct2, rule_format]
  have "snd (for_urls (\<lambda>k. env_remove_fails) ''tumblr''
        [Str ''https://a.tumblr.com/post/987'', Str ''https://b.tumblr.com/post/1''] 0)
       = Inl (Exc ''Permission denied'')"
    by (rule c3) simp
  with h c1 show ?thesis by simp
qed

text \<open>
  Everything succeeds but the deletion: the exception leaves \<open>process_url\<close>, and no
  error line is logged by it.
\<close>

theorem remove_failure_counterexample:
  "remove env_remove_fails = Inl (Exc ''Permission denied'')
   \<and> snd (process_url env_remove_fails (Str ''https://a.tumblr.com/post/987'') ''tumblr'')
       = Inl (Exc ''Permission denied'')
   \<and> calls is_error_log
        (fst (process_url env_remove_fails (Str ''https://a.tumblr.com/post/987'') ''tumblr''))
       = []"
  by code_simp

text \<open>
  C4.  On the failure path with a status message, an error edit that raises is logged and
  followed by a plain-text reply with the same error text; the exception of the edit is
  dropped.  The reply itself is not guarded: the outcome of \<open>process_url\<close> is the outcome
  of that reply (or the exception of the \<open>finally\<close> clause, if it raises), so an exception
  of the fallback reply leaves \<open>process_url\<close>.
\<close>

theorem failed_edit_falls_back:
  assumes "t_outcome (try_block env url platform) = Inl e"
    "t_status_message (try_block env url platform) = Some m"
    "edit_to_error env = Inl e2"
  shows "fst (process_url env url platform) =
           t_steps (try_block env url platform)
           @ [(Log ERROR (''Error processing '' @ py_str url @ '': '' @ str_exc e),
               Returned Nothing),
              (Edit_message_text (chat_id m) (message_id m)
                 (error_message platform (t_file_path (try_block env url platform))),
               Raised e2),
              (Log ERROR (''Failed to edit message: '' @ str_exc e2), Returned Nothing),
              (Reply_text (error_message platform (t_file_path (try_block env url platform))),
               outcome_of (\<lambda>_. Nothing) (reply_error env))]
           @ fst (finally_clause env (t_file_path (try_block env url platform)))
       \<and> snd (process_url env url platform) =
           (case snd (finally_clause env (t_file_path (try_block env url platform))) of
              Inl e' \<Rightarrow> Inl e'
            | Inr _ \<Rightarrow> reply_error env)"
  using process_url_raised [OF assms(1)] assms(2,3)
  by (simp add: except_clause_fallback split: sum.splits)

theorem failed_edit_falls_back_witness:
  "t_outcome (try_block env_edit_fails (Str ''https://a.tumblr.com/post/987'') ''tumblr'')
     = Inl (Exc ''network error'')
   \<and> t_status_message (try_block env_edit_fails (Str ''https://a.tumblr.com/post/987'') ''tumblr'')
     = Some \<lparr>chat_id = 42, message_id = 7\<rparr>
   \<and> edit_to_error env_edit_fails = Inl (Exc ''Message can not be edited'')
   \<and> snd (process_url env_edit_fails (Str ''https://a.tumblr.com/post/987'') ''tumblr'') = Inr ()"
proof -
  have h: "t_outcome (try_block env_edit_fails (Str ''https://a.tumblr.com/post/987'') ''tumblr'')
       = Inl (Exc ''network error'')"
    "t_status_message (try_block env_edit_fails (Str ''https://a.tumblr.com/post/987'') ''tumblr'')
       = Some \<lparr>chat_id = 42, message_id = 7\<rparr>"
    "edit_to_error env_edit_fails = Inl (Exc ''Message can not be edited'')"
    by code_simp+
  have fp: "t_file_path (try_block env_edit_fails (Str ''https://a.tumblr.com/post/987'') ''tumblr'')
       = None"
    and r: "reply_error env_edit_fails = Inr ()"
    by code_simp+
  from failed_edit_falls_back [OF h] fp r
  have "snd (process_url env_edit_fails (Str ''https://a.tumblr.com/post/987'') ''tumblr'') = Inr ()"
    by (simp add: finally_clause_nothing)
  with h show ?thesis by simp
qed

text \<open>
  The download fails, the error edit fails, and the fallback reply times out: the
  time-out leaves \<open>process_url\<close>.
\<close>

theorem fallback_reply_counterexample:
  "edit_to_error env_report_fails = Inl (Exc ''Message can not be edited'')
   \<and> reply_error env_report_fails = Inl (Exc ''Timed out'')
   \<and> snd (process_url env_report_fails (Str ''https://a.tumblr.com/post/987'') ''tumblr'')
       = Inl (Exc ''Timed out'')"
  by code_simp

lemma sending_edits_among_edits:
  "calls is_sending_edit t = filter is_sending_edit (calls is_edit t)"
proof (induction t)
  case Nil
  then show ?case by simp
next
  case (Cons st t)
  then show ?case by (cases "fst st") simp_all
qed

lemma shown_silent:
  assumes "list_all (\<lambda>st. silent (fst st)) t"
  shows "shown m s (t @ u) = shown m s u"
  using assms
proof (induction t)
  case Nil
  then show ?case by simp
next
  case (Cons st t)
  obtain ev out where st: "st = (ev, out)" by (cases st)
  from Cons have "\<not> is_edit ev" by (simp add: st silent_def)
  with Cons show ?case by (cases ev; cases out) (simp_all add: st)
qed

lemma status_messages_append:
  "status_messages (t @ u) = status_messages t @ status_messages u"
  by (induction t rule: status_messages.induct) simp_all

text \<open>A job whose download raises: the \<open>try\<close> block is left with a status message and
  without a file path, and the \<open>finally\<close> clause has nothing to do.\<close>

lemma no_file_run:
  assumes "reply_status env = Inr m" "snd (download_stage env url) = Inl e"
  shows "process_url env url platform =
     (fst (start_stage env url platform) @ fst (download_stage env url)
        @ fst (except_clause env url platform e (Some m) None),
      snd (except_clause env url platform e (Some m) None))"
proof -
  note tb = try_block_no_file [OF assms, of platform]
  then have "t_outcome (try_block env url platform) = Inl e" by simp
  from process_url_raised [OF this] tb show ?thesis
    by (simp add: finally_clause_nothing)
qed

lemma error_message_None:
  "error_message platform None =
     ''Error sending media from '' @ capitalize platform
       @ ''. Please try again or use a different link.''"
  by (simp add: error_message_def)

lemma no_file_facts:
  assumes "reply_status env = Inr m" "snd (download_stage env url) = Inl e"
  shows "calls is_edit (fst (process_url env url platform)) =
           [Edit_message_text (chat_id m) (message_id m) (error_message platform None)]"
    and "calls is_remove (fst (process_url env url platform)) = []"
    and "status_text (fst (process_url env url platform)) =
           Some (if edit_to_error env = Inr () then error_message platform None
                 else ''Processing media from '' @ capitalize platform @ ''...'')"
    and "edit_to_error env \<noteq> Inr () \<Longrightarrow>
           last (fst (process_url env url platform)) =
             (Reply_text (error_message platform None),
              outcome_of (\<lambda>_. Nothing) (reply_error env))"
proof -
  note run = no_file_run [OF assms, of platform]
  show "calls is_edit (fst (process_url env url platform)) =
           [Edit_message_text (chat_id m) (message_id m) (error_message platform None)]"
    by (cases "edit_to_error env")
      (simp_all add: run start_stage_calls download_stage_calls except_clause_fallback
        except_clause_edited)
  show "calls is_remove (fst (process_url env url platform)) = []"
    by (simp add: run start_stage_calls download_stage_calls except_clause_calls)
  show "status_text (fst (process_url env url platform)) =
           Some (if edit_to_error env = Inr () then error_message platform None
                 else ''Processing media from '' @ capitalize platform @ ''...'')"
    by (cases "edit_to_error env")
      (simp_all add: run start_stage_steps assms(1) shown_silent [OF download_stage_silent]
        except_clause_fallback except_clause_edited)
  show "last (fst (process_url env url platform)) =
             (Reply_text (error_message platform None),
              outcome_of (\<lambda>_. Nothing) (reply_error env))"
    if "edit_to_error env \<noteq> Inr ()"
    using that by (cases "edit_to_error env") (simp_all add: run except_clause_fallback)
qed

text \<open>
  C5.  When \<open>extract_info\<close> raises, no edit to a \<open>Sending ...\<close> text is ever issued: the
  only edit of the job carries the error text, which names the platform.  The claim also
  says that the status message ends in that error state; it does when the error edit
  returns.  When the error edit raises, the status message keeps its
  \<open>Processing media from ...\<close> text and the error text is posted as a new reply, the last
  step of the job.
\<close>

theorem fetcher_failure_reported:
  assumes "reply_status env = Inr m" "makedirs env = Inr ()" "extract_info env = Inl e"
  shows "calls is_sending_edit (fst (process_url env url platform)) = []
       \<and> calls is_edit (fst (process_url env url platform)) =
           [Edit_message_text (chat_id m) (message_id m)
              (''Error sending media from '' @ capitalize platform
                 @ ''. Please try again or use a different link.'')]
       \<and> status_text (fst (process_url env url platform)) =
           Some (if edit_to_error env = Inr ()
                 then ''Error sending media from '' @ capitalize platform
                        @ ''. Please try again or use a different link.''
                 else ''Processing media from '' @ capitalize platform @ ''...'')
       \<and> (edit_to_error env \<noteq> Inr () \<longrightarrow>
            fst (last (fst (process_url env url platform))) =
              Reply_text (''Error sending media from '' @ capitalize platform
                 @ ''. Please try again or use a different link.''))"
proof -
  from assms have d: "snd (download_stage env url) = Inl e" by (simp add: download_stage_Inl)
  note f = no_file_facts [OF assms(1) d, of platform]
  have "calls is_sending_edit (fst (process_url env url platform)) = []"
    by (simp add: sending_edits_among_edits f(1) error_message_None)
  with f show ?thesis by (simp add: error_message_None)
qed


theorem fetcher_failure_reported_witness:
  "reply_status env_fetch_fails = Inr \<lparr>chat_id = 42, message_id = 7\<rparr>
   \<and> makedirs env_fetch_fails = Inr ()
   \<and> extract_info env_fetch_fails = Inl (Exc ''network error'')
   \<and> status_text (fst (process_url env_fetch_fails (Str ''https://a.tumblr.com/post/987'') ''tumblr''))
       = Some ''Error sending media from Tumblr. Please try again or use a different link.''
   \<and> extract_info env_edit_fails = Inl (Exc ''network error'')
   \<and> edit_to_error env_edit_fails \<noteq> Inr ()
   \<and> fst (last (fst (process_url env_edit_fails (Str ''https://a.tumblr.com/post/987'') ''tumblr'')))
       = Reply_text ''Error sending media from Tumblr. Please try again or use a different link.''"
proof -
  have h: "reply_status env_fetch_fails = Inr \<lparr>chat_id = 42, message_id = 7\<rparr>"
    "makedirs env_fetch_fails = Inr ()"
    "extract_info env_fetch_fails = Inl (Exc ''network error'')"
    by code_simp+
  have ok: "edit_to_error env_fetch_fails = Inr ()"
    and cap: "capitalize ''tumblr'' = ''Tumblr''"
    by code_simp+
  from fetcher_failure_reported [OF h, of "Str ''https://a.tumblr.com/post/987''" "''tumblr''"]
  have "status_text (fst (process_url env_fetch_fails (Str ''https://a.tumblr.com/post/987'') ''tumblr''))
       = Some ''Error sending media from Tumblr. Please try again or use a different link.''"
    unfolding cap by (simp add: ok)
  moreover
  have h': "reply_status env_edit_fails = Inr \<lparr>chat_id = 42, message_id = 7\<rparr>"
    "makedirs env_edit_fails = Inr ()"
    "extract_info env_edit_fails = Inl (Exc ''network error'')"
    and ne: "edit_to_error env_edit_fails \<noteq> Inr ()"
    by code_simp+
  from fetcher_failure_reported [OF h', of "Str ''https://a.tumblr.com/post/987''" "''tumblr''"]
    ne
  have "fst (last (fst (process_url env_edit_fails (Str ''https://a.tumblr.com/post/987'') ''tumblr'')))
       = Reply_text ''Error sending media from Tumblr. Please try again or use a different link.''"
    unfolding cap by simp
  ultimately show ?thesis using h h'(3) ne by simp
qed

text \<open>
  \<open>extract_info\<close> raises and the error edit raises: the status message is left at its
  first text.
\<close>

theorem status_not_error_counterexample:
  "reply_status env_edit_fails = Inr \<lparr>chat_id = 42, message_id = 7\<rparr>
   \<and> makedirs env_edit_fails = Inr ()
   \<and> extract_info env_edit_fails = Inl (Exc ''network error'')
   \<and> status_text (fst (process_url env_edit_fails (Str ''https://a.tumblr.com/post/987'') ''tumblr''))
       = Some ''Processing media from Tumblr...''"
  by code_simp

lemma error_message_video:
  "error_message platform fp =
     ''Error sending video from '' @ capitalize platform
       @ ''. Please try again or use a different link.''
   \<longleftrightarrow> (\<exists>p. fp = Some p \<and> p \<noteq> [] \<and> endswith_any p video_exts)"
  by (cases fp) (simp_all add: error_message_def)

text \<open>
  C8.  When the download raises before a path is there (\<open>extract_info\<close> or
  \<open>prepare_filename\<close> raises), the job issues one edit of the status message, to the error
  text with the word \<open>media\<close> and the platform, and attempts no removal.  The status
  message shows that text when the edit returns; the claim's \<open>is edited\<close> fails when the
  edit raises.  The word \<open>video\<close> appears exactly for a non-empty path with a video
  extension.
\<close>

theorem early_failure_media_no_removal:
  assumes "reply_status env = Inr m" "makedirs env = Inr ()"
    "extract_info env = Inl e \<or> extract_info env = Inr () \<and> prepare_filename env = Inl e"
  shows "calls is_edit (fst (process_url env url platform)) =
           [Edit_message_text (chat_id m) (message_id m)
              (''Error sending media from '' @ capitalize platform
                 @ ''. Please try again or use a different link.'')]
       \<and> calls is_remove (fst (process_url env url platform)) = []
       \<and> (edit_to_error env = Inr () \<longrightarrow>
            status_text (fst (process_url env url platform)) =
              Some (''Error sending media from '' @ capitalize platform
                 @ ''. Please try again or use a different link.''))
       \<and> (\<forall>fp. error_message platform fp =
              ''Error sending video from '' @ capitalize platform
                @ ''. Please try again or use a different link.''
            \<longleftrightarrow> (\<exists>p. fp = Some p \<and> p \<noteq> [] \<and> endswith_any p video_exts))"
proof -
  from assms have d: "snd (download_stage env url) = Inl e" by (auto simp: download_stage_Inl)
  note f = no_file_facts [OF assms(1) d, of platform]
  have v: "\<forall>fp. error_message platform fp =
              ''Error sending video from '' @ capitalize platform
                @ ''. Please try again or use a different link.''
            \<longleftrightarrow> (\<exists>p. fp = Some p \<and> p \<noteq> [] \<and> endswith_any p video_exts)"
    by (rule allI) (rule error_message_video)
  from f(1,2,3) have "calls is_edit (fst (process_url env url platform)) =
           [Edit_message_text (chat_id m) (message_id m)
              (''Error sending media from '' @ capitalize platform
                 @ ''. Please try again or use a different link.'')]
       \<and> calls is_remove (fst (process_url env url platform)) = []
       \<and> (edit_to_error env = Inr () \<longrightarrow>
            status_text (fst (process_url env url platform)) =
              Some (''Error sending media from '' @ capitalize platform
                 @ ''. Please try again or use a different link.''))"
    by (simp add: error_message_None)
  with v show ?thesis by (intro conjI) (erule conjunct1 | erule conjunct2 | assumption | blast)+
qed

theorem early_failure_media_no_removal_witness:
  "reply_status env_prepare_fails = Inr \<lparr>chat_id = 42, message_id = 7\<rparr>
   \<and> makedirs env_prepare_fails = Inr ()
   \<and> extract_info env_prepare_fails = Inr ()
   \<and> prepare_filename env_prepare_fails = Inl (Exc ''no file name'')
   \<and> calls is_edit
        (fst (process_url env_prepare_fails (Str ''https://a.tumblr.com/post/987'') ''tumblr''))
       = [Edit_message_text 42 7
            ''Error sending media from Tumblr. Please try again or use a different link.'']
   \<and> calls is_remove
        (fst (process_url env_prepare_fails (Str ''https://a.tumblr.com/post/987'') ''tumblr''))
       = []
   \<and> edit_to_error env_prepare_fails = Inr ()
   \<and> status_text
        (fst (process_url env_prepare_fails (Str ''https://a.tumblr.com/post/987'') ''tumblr''))
       = Some ''Error sending media from Tumblr. Please try again or use a different link.''"
proof -
  have h: "reply_status env_prepare_fails = Inr \<lparr>chat_id = 42, message_id = 7\<rparr>"
    "makedirs env_prepare_fails = Inr ()"
    and h3: "extract_info env_prepare_fails = Inr ()"
      "prepare_filename env_prepare_fails = Inl (Exc ''no file name'')"
    by code_simp+
  from h3 have h3': "extract_info env_prepare_fails = Inl (Exc ''no file name'')
    \<or> extract_info env_prepare_fails = Inr ()
      \<and> prepare_filename env_prepare_fails = Inl (Exc ''no file name'')"
    by simp
  have cap: "capitalize ''tumblr'' = ''Tumblr''"
    and ok: "edit_to_error env_prepare_fails = Inr ()"
    by code_simp+
  from early_failure_media_no_removal [OF h h3', of "Str ''https://a.tumblr.com/post/987''" "''tumblr''"]
    ok
  have "calls is_edit
        (fst (process_url env_prepare_fails (Str ''https://a.tumblr.com/post/987'') ''tumblr''))
       = [Edit_message_text 42 7
            ''Error sending media from Tumblr. Please try again or use a different link.'']
   \<and> calls is_remove
        (fst (process_url env_prepare_fails (Str ''https://a.tumblr.com/post/987'') ''tumblr''))
       = []
   \<and> status_text
        (fst (process_url env_prepare_fails (Str ''https://a.tumblr.com/post/987'') ''tumblr''))
       = Some ''Error sending media from Tumblr. Please try again or use a different link.''"
    unfolding cap by simp
  with h h3 ok show ?thesis by simp
qed

text \<open>
  \<open>prepare_filename\<close> raises and the error edit raises: the edit step ends in an
  exception and the status message is left at its first text.
\<close>

theorem status_not_edited_counterexample:
  "reply_status env_prepare_edit_fails = Inr \<lparr>chat_id = 42, message_id = 7\<rparr>
   \<and> extract_info env_prepare_edit_fails = Inr ()
   \<and> prepare_filename env_prepare_edit_fails = Inl (Exc ''no file name'')
   \<and> (Edit_message_text 42 7
         ''Error sending media from Tumblr. Please try again or use a different link.'',
       Raised (Exc ''Message to edit not found''))
      \<in> set (fst (process_url env_prepare_edit_fails (Str ''https://a.tumblr.com/post/987'')
                 ''tumblr''))
   \<and> status_text
        (fst (process_url env_prepare_edit_fails (Str ''https://a.tumblr.com/post/987'') ''tumblr''))
       = Some ''Processing media from Tumblr...''"
  by code_simp

lemma stage_status_messages:
  "status_messages (fst (start_stage env url platform)) =
     (case reply_status env of Inl e \<Rightarrow> [] | Inr m \<Rightarrow> [m])"
  "status_messages (fst (download_stage env url)) = []"
  "status_messages (fst (except_clause env url platform e sm fp)) = []"
  "status_messages (fst (finally_clause env fp)) = []"
proof -
  show "status_messages (fst (start_stage env url platform)) =
     (case reply_status env of Inl e \<Rightarrow> [] | Inr m \<Rightarrow> [m])"
    by (cases "reply_status env") (simp_all add: start_stage_steps)
  show "status_messages (fst (download_stage env url)) = []"
    by (cases "makedirs env"; cases "extract_info env"; cases "prepare_filename env")
      (simp_all add: download_stage_def)
  show "status_messages (fst (except_clause env url platform e sm fp)) = []"
    by (cases sm; cases "edit_to_error env"; cases "reply_error env")
      (simp_all add: except_clause_None except_clause_edited except_clause_fallback)
  show "status_messages (fst (finally_clause env fp)) = []"
    by (cases fp; cases "the fp = []"; cases "path_exists env"; cases "remove env")
      (simp_all add: finally_clause_def)
qed

lemma send_stage_status_messages:
  "status_messages (fst (send_stage env url platform m p)) = []"
  by (cases "edit_sending env"; cases "open_file env"; cases "reply_media env";
      cases "edit_sent env"; cases "edit_unsupported env")
    (simp_all add: send_stage_def edit_status_def)

lemma calls_none: "list_all (\<lambda>st. \<not> kind (fst st)) t \<Longrightarrow> calls kind t = []"
  by (induction t) simp_all

lemma finally_clause_quiet:
  "list_all (\<lambda>st. \<not> is_edit (fst st) \<and> \<not> is_reply_text (fst st) \<and> \<not> is_send (fst st)
     \<and> \<not> is_error_log (fst st)) (fst (finally_clause env fp))"
  by (cases fp; cases "the fp = []"; cases "path_exists env")
    (simp_all add: finally_clause_def call_def)

lemma finally_clause_calls:
  "calls is_edit (fst (finally_clause env fp)) = []"
  "calls is_reply_text (fst (finally_clause env fp)) = []"
  "calls is_send (fst (finally_clause env fp)) = []"
  "calls is_error_log (fst (finally_clause env fp)) = []"
  using finally_clause_quiet [of env fp] by (simp_all add: calls_none list_all_iff)

lemma except_clause_texts:
  "calls is_reply_text (fst (except_clause env url platform e sm fp)) =
     (if sm = None \<or> edit_to_error env \<noteq> Inr () then [Reply_text (error_message platform fp)]
      else [])"
  "calls is_edit (fst (except_clause env url platform e sm fp)) =
     (case sm of None \<Rightarrow> []
      | Some m \<Rightarrow> [Edit_message_text (chat_id m) (message_id m) (error_message platform fp)])"
  by (cases sm; cases "edit_to_error env";
      simp add: except_clause_None except_clause_edited except_clause_fallback)+

lemma try_block_texts:
  "calls is_reply_text (t_steps (try_block env url platform)) =
     [Reply_text (''Processing media from '' @ capitalize platform @ ''...'')]"
  "status_messages (t_steps (try_block env url platform)) =
     (case reply_status env of Inl e \<Rightarrow> [] | Inr m \<Rightarrow> [m])"
  "t_status_message (try_block env url platform) =
     (case reply_status env of Inl e \<Rightarrow> None | Inr m \<Rightarrow> Some m)"
proof -
  have "calls is_reply_text (t_steps (try_block env url platform)) =
     [Reply_text (''Processing media from '' @ capitalize platform @ ''...'')]
   \<and> status_messages (t_steps (try_block env url platform)) =
     (case reply_status env of Inl e \<Rightarrow> [] | Inr m \<Rightarrow> [m])
   \<and> t_status_message (try_block env url platform) =
     (case reply_status env of Inl e \<Rightarrow> None | Inr m \<Rightarrow> Some m)"
  proof (cases "reply_status env")
    case (Inl e)
    from try_block_no_status [OF Inl, of url platform] Inl show ?thesis
      by (simp add: start_stage_steps)
  next
    case (Inr m)
    show ?thesis
    proof (cases "snd (download_stage env url)")
      case (Inl e)
      from try_block_no_file [OF Inr Inl, of platform] Inr show ?thesis
        by (simp add: start_stage_steps download_stage_calls status_messages_append
            stage_status_messages)
    next
      case (Inr p)
      from try_block_file [OF \<open>reply_status env = Inr m\<close> Inr, of platform]
        \<open>reply_status env = Inr m\<close>
      show ?thesis
        by (simp add: start_stage_steps download_stage_calls send_stage_calls
            status_messages_append stage_status_messages send_stage_status_messages)
    qed
  qed
  then show "calls is_reply_text (t_steps (try_block env url platform)) =
     [Reply_text (''Processing media from '' @ capitalize platform @ ''...'')]"
    "status_messages (t_steps (try_block env url platform)) =
     (case reply_status env of Inl e \<Rightarrow> [] | Inr m \<Rightarrow> [m])"
    "t_status_message (try_block env url platform) =
     (case reply_status env of Inl e \<Rightarrow> None | Inr m \<Rightarrow> Some m)"
    by simp_all
qed

lemma try_block_edits:
  assumes "reply_status env = Inr m"
  shows "list_all (\<lambda>ev. \<exists>s. ev = Edit_message_text (chat_id m) (message_id m) s)
     (calls is_edit (t_steps (try_block env url platform)))"
proof (cases "snd (download_stage env url)")
  case (Inl e)
  from try_block_no_file [OF assms Inl, of platform] show ?thesis
    by (simp add: start_stage_calls download_stage_calls)
next
  case (Inr p)
  from try_block_file [OF assms Inr, of platform] show ?thesis
    by (simp add: start_stage_calls download_stage_calls send_stage_calls)
qed

text \<open>
  C6.  Every job makes exactly one call that creates a status message, the first
  \<open>reply_text\<close>, and the only other text it can post is the error text of the failure
  path (when there is no status message or the error edit raised): progress is never
  posted as a new message.  When the first call returns, exactly one status message
  exists and every edit of the job addresses it.  The claim's \<open>exactly one is created\<close>
  fails when the first call raises: then there is no status message, no edit is issued,
  and the error text is posted as a reply.
\<close>

theorem one_status_message:
  "calls is_reply_text (fst (process_url env url platform)) =
     Reply_text (''Processing media from '' @ capitalize platform @ ''...'')
     # (if t_outcome (try_block env url platform) \<noteq> Inr ()
          \<and> (t_status_message (try_block env url platform) = None
             \<or> edit_to_error env \<noteq> Inr ())
        then [Reply_text (error_message platform (t_file_path (try_block env url platform)))]
        else [])
   \<and> status_messages (fst (process_url env url platform)) =
       (case reply_status env of Inl e \<Rightarrow> [] | Inr m \<Rightarrow> [m])
   \<and> (\<forall>m. reply_status env = Inr m \<longrightarrow>
         list_all (\<lambda>ev. \<exists>s. ev = Edit_message_text (chat_id m) (message_id m) s)
           (calls is_edit (fst (process_url env url platform))))
   \<and> (\<forall>e. reply_status env = Inl e \<longrightarrow>
         calls is_edit (fst (process_url env url platform)) = []
         \<and> calls is_reply_text (fst (process_url env url platform)) =
             [Reply_text (''Processing media from '' @ capitalize platform @ ''...''),
              Reply_text (error_message platform None)])"
proof (cases "t_outcome (try_block env url platform)")
  case (Inl e)
  note run = process_url_raised [OF Inl]
  have a: "calls is_reply_text (fst (process_url env url platform)) =
     Reply_text (''Processing media from '' @ capitalize platform @ ''...'')
     # (if t_outcome (try_block env url platform) \<noteq> Inr ()
          \<and> (t_status_message (try_block env url platform) = None
             \<or> edit_to_error env \<noteq> Inr ())
        then [Reply_text (error_message platform (t_file_path (try_block env url platform)))]
        else [])"
    by (simp add: run Inl try_block_texts(1) except_clause_texts finally_clause_calls)
  have b: "status_messages (fst (process_url env url platform)) =
       (case reply_status env of Inl e \<Rightarrow> [] | Inr m \<Rightarrow> [m])"
    by (simp add: run status_messages_append try_block_texts(2) stage_status_messages)
  have c: "list_all (\<lambda>ev. \<exists>s. ev = Edit_message_text (chat_id m) (message_id m) s)
           (calls is_edit (fst (process_url env url platform)))"
    if "reply_status env = Inr m" for m
    using try_block_edits [OF that, of url platform]
    by (simp add: run except_clause_texts finally_clause_calls try_block_texts(3) that)
  have d: "calls is_edit (fst (process_url env url platform)) = []
         \<and> calls is_reply_text (fst (process_url env url platform)) =
             [Reply_text (''Processing media from '' @ capitalize platform @ ''...''),
              Reply_text (error_message platform None)]"
    if "reply_status env = Inl e'" for e'
  proof -
    note tb = try_block_no_status [OF that, of url platform]
    then have "t_outcome (try_block env url platform) = Inl e'" by simp
    from process_url_raised [OF this] tb show ?thesis
      by (simp add: start_stage_steps that except_clause_None finally_clause_nothing)
  qed
  show ?thesis
    by (intro conjI allI impI)
      (rule a, rule b, erule c, erule d [THEN conjunct1], erule d [THEN conjunct2])
next
  case (Inr u)
  then have ok: "t_outcome (try_block env url platform) = Inr ()" by simp
  note run = process_url_returned [OF ok]
  have a: "calls is_reply_text (fst (process_url env url platform)) =
     Reply_text (''Processing media from '' @ capitalize platform @ ''...'')
     # (if t_outcome (try_block env url platform) \<noteq> Inr ()
          \<and> (t_status_message (try_block env url platform) = None
             \<or> edit_to_error env \<noteq> Inr ())
        then [Reply_text (error_message platform (t_file_path (try_block env url platform)))]
        else [])"
    by (simp add: run ok try_block_texts(1) finally_clause_calls)
  have b: "status_messages (fst (process_url env url platform)) =
       (case reply_status env of Inl e \<Rightarrow> [] | Inr m \<Rightarrow> [m])"
    by (simp add: run status_messages_append try_block_texts(2) stage_status_messages)
  have c: "list_all (\<lambda>ev. \<exists>s. ev = Edit_message_text (chat_id m) (message_id m) s)
           (calls is_edit (fst (process_url env url platform)))"
    if "reply_status env = Inr m" for m
    using try_block_edits [OF that, of url platform]
    by (simp add: run finally_clause_calls)
  have d: "P" if "reply_status env = Inl e'" for e' P
    using try_block_no_status [OF that, of url platform] ok by simp
  show ?thesis
    by (intro conjI allI impI) (rule a, rule b, erule c, erule d, erule d)
qed


theorem one_status_message_witness:
  "reply_status env_ok = Inr \<lparr>chat_id = 42, message_id = 7\<rparr>
   \<and> list_all (\<lambda>ev. \<exists>s. ev = Edit_message_text 42 7 s)
        (calls is_edit (fst (process_url env_ok (Str ''https://a.tumblr.com/post/987'') ''tumblr'')))
   \<and> reply_status env_no_status = Inl (Exc ''Timed out'')
   \<and> calls is_edit
        (fst (process_url env_no_status (Str ''https://a.tumblr.com/post/987'') ''tumblr'')) = []"
proof -
  have h1: "reply_status env_ok = Inr \<lparr>chat_id = 42, message_id = 7\<rparr>"
    and h2: "reply_status env_no_status = Inl (Exc ''Timed out'')"
    by code_simp+
  note c1 = one_status_message [of env_ok "Str ''https://a.tumblr.com/post/987''" "''tumblr''",
      THEN conjunct2, THEN conjunct2, THEN conjunct1, rule_format, OF h1]
  note c2 = one_status_message [of env_no_status "Str ''https://a.tumblr.com/post/987''"
      "''tumblr''", THEN conjunct2, THEN conjunct2, THEN conjunct2, rule_format, OF h2,
      THEN conjunct1]
  from c1 have "list_all (\<lambda>ev. \<exists>s. ev = Edit_message_text 42 7 s)
        (calls is_edit (fst (process_url env_ok (Str ''https://a.tumblr.com/post/987'') ''tumblr'')))"
    by simp
  with h1 h2 c2 show ?thesis by simp
qed

text \<open>
  The first \<open>reply_text\<close> times out: no status message is created, and the job posts the
  error text as a reply.
\<close>

theorem no_status_message_counterexample:
  "reply_status env_no_status = Inl (Exc ''Timed out'')
   \<and> status_messages
        (fst (process_url env_no_status (Str ''https://a.tumblr.com/post/987'') ''tumblr'')) = []
   \<and> calls is_reply_text
        (fst (process_url env_no_status (Str ''https://a.tumblr.com/post/987'') ''tumblr''))
       = [Reply_text ''Processing media from Tumblr...'',
          Reply_text ''Error sending media from Tumblr. Please try again or use a different link.'']"
  by code_simp

lemma shown_quiet: "list_all (\<lambda>st. \<not> is_edit (fst st)) t \<Longrightarrow> shown m s t = s"
proof (induction t)
  case Nil
  then show ?case by simp
next
  case (Cons st t)
  obtain ev out where st: "st = (ev, out)" by (cases st)
  from Cons show ?case by (cases ev; cases out) (simp_all add: st)
qed

lemma finally_clause_shown: "shown m s (fst (finally_clause env fp)) = s"
  using finally_clause_quiet [of env fp] by (intro shown_quiet) (simp add: list_all_iff)

lemma finally_clause_outcome:
  "snd (finally_clause env (Some p)) = (if p \<noteq> [] \<and> path_exists env then remove env else Inr ())"
  by (cases "p = []"; cases "path_exists env")
    (simp_all add: finally_clause_remove finally_clause_absent finally_clause_nothing)

text \<open>
  C7.  A path whose extension is neither a video nor a photo extension: nothing is opened
  or sent, the first edit issued is the one to the \<open>unsupported media type\<close> text, and
  the \<open>finally\<close> clause removes the file when it is there.  When that edit returns it is
  the only edit, no error is logged (the \<open>except\<close> clause is not entered), the status
  message shows the text, and \<open>process_url\<close> ends as the removal does.  The claim's
  \<open>terminates normally\<close> fails when the edit raises: the job then goes through the
  \<open>except\<close> clause.
\<close>

theorem unsupported_type_outcome:
  assumes "reply_status env = Inr m" "makedirs env = Inr ()" "extract_info env = Inr ()"
    "prepare_filename env = Inr p"
    "\<not> endswith_any p video_exts" "\<not> endswith_any p photo_exts"
  shows "calls is_send (fst (process_url env url platform)) = []
       \<and> hd (calls is_edit (fst (process_url env url platform))) =
           Edit_message_text (chat_id m) (message_id m)
             (''Sorry, unsupported media type from '' @ platform @ ''.'')
       \<and> (edit_unsupported env = Inr () \<longrightarrow>
            calls is_edit (fst (process_url env url platform)) =
              [Edit_message_text (chat_id m) (message_id m)
                 (''Sorry, unsupported media type from '' @ platform @ ''.'')]
            \<and> calls is_error_log (fst (process_url env url platform)) = []
            \<and> status_text (fst (process_url env url platform)) =
                Some (''Sorry, unsupported media type from '' @ platform @ ''.'')
            \<and> snd (process_url env url platform) =
                (if p \<noteq> [] \<and> path_exists env then remove env else Inr ()))
       \<and> calls is_remove (fst (process_url env url platform)) =
           (if p \<noteq> [] \<and> path_exists env then [Remove p] else [])"
proof -
  note tb = fetched_block [OF assms(1-4), of url platform]
  note send = send_stage_unsupported [OF assms(5,6), of env url platform m]
  show ?thesis
  proof (cases "edit_unsupported env")
    case (Inl e)
    with tb send have "t_outcome (try_block env url platform) = Inl e" by simp
    from process_url_raised [OF this] tb send Inl show ?thesis
      by (simp add: start_stage_calls download_stage_calls except_clause_calls
          except_clause_texts finally_clause_calls finally_clause_removals)
  next
    case (Inr u)
    with tb send have "t_outcome (try_block env url platform) = Inr ()" by simp
    note run = process_url_returned [OF this]
    have steps: "fst (process_url env url platform) =
        fst (start_stage env url platform) @ fst (download_stage env url)
        @ [(Log DEBUG (''Unsupported media type: '' @ p), Returned Nothing),
           (Edit_message_text (chat_id m) (message_id m)
              (''Sorry, unsupported media type from '' @ platform @ ''.''), Returned Nothing)]
        @ fst (finally_clause env (Some p))"
      using tb send Inr by (simp add: run)
    have out: "snd (process_url env url platform) =
        (if p \<noteq> [] \<and> path_exists env then remove env else Inr ())"
      using tb by (cases "remove env") (simp_all add: run finally_clause_outcome)
    have st: "status_text (fst (process_url env url platform)) =
        Some (''Sorry, unsupported media type from '' @ platform @ ''.'')"
      by (simp add: steps start_stage_steps assms(1) shown_silent [OF download_stage_silent]
          finally_clause_shown)
    have "calls is_send (fst (process_url env url platform)) = []"
      "calls is_edit (fst (process_url env url platform)) =
         [Edit_message_text (chat_id m) (message_id m)
            (''Sorry, unsupported media type from '' @ platform @ ''.'')]"
      "calls is_error_log (fst (process_url env url platform)) = []"
      "calls is_remove (fst (process_url env url platform)) =
         (if p \<noteq> [] \<and> path_exists env then [Remove p] else [])"
      by (simp_all add: steps start_stage_calls download_stage_calls finally_clause_calls
          finally_clause_removals)
    with out st show ?thesis by simp
  qed
qed

theorem unsupported_type_outcome_witness:
  "reply_status env_unsupported = Inr \<lparr>chat_id = 42, message_id = 7\<rparr>
   \<and> makedirs env_unsupported = Inr () \<and> extract_info env_unsupported = Inr ()
   \<and> prepare_filename env_unsupported = Inr ''downloads/987.m4a''
   \<and> \<not> endswith_any ''downloads/987.m4a'' video_exts
   \<and> \<not> endswith_any ''downloads/987.m4a'' photo_exts
   \<and> edit_unsupported env_unsupported = Inr ()
   \<and> calls is_send
        (fst (process_url env_unsupported (Str ''https://a.tumblr.com/post/987'') ''tumblr'')) = []
   \<and> status_text
        (fst (process_url env_unsupported (Str ''https://a.tumblr.com/post/987'') ''tumblr''))
       = Some ''Sorry, unsupported media type from tumblr.''
   \<and> snd (process_url env_unsupported (Str ''https://a.tumblr.com/post/987'') ''tumblr'') = Inr ()
   \<and> calls is_remove
        (fst (process_url env_unsupported (Str ''https://a.tumblr.com/post/987'') ''tumblr''))
       = [Remove ''downloads/987.m4a'']"
proof -
  have h: "reply_status env_unsupported = Inr \<lparr>chat_id = 42, message_id = 7\<rparr>"
    "makedirs env_unsupported = Inr ()" "extract_info env_unsupported = Inr ()"
    "prepare_filename env_unsupported = Inr ''downloads/987.m4a''"
    "\<not> endswith_any ''downloads/987.m4a'' video_exts"
    "\<not> endswith_any ''downloads/987.m4a'' photo_exts"
    by code_simp+
  have e: "edit_unsupported env_unsupported = Inr ()" "path_exists env_unsupported"
    "remove env_unsupported = Inr ()"
    by code_simp+
  from unsupported_type_outcome [OF h, of "Str ''https://a.tumblr.com/post/987''" "''tumblr''"] e
  have "calls is_send
        (fst (process_url env_unsupported (Str ''https://a.tumblr.com/post/987'') ''tumblr'')) = []
   \<and> status_text
        (fst (process_url env_unsupported (Str ''https://a.tumblr.com/post/987'') ''tumblr''))
       = Some ''Sorry, unsupported media type from tumblr.''
   \<and> snd (process_url env_unsupported (Str ''https://a.tumblr.com/post/987'') ''tumblr'') = Inr ()
   \<and> calls is_remove
        (fst (process_url env_unsupported (Str ''https://a.tumblr.com/post/987'') ''tumblr''))
       = [Remove ''downloads/987.m4a'']"
    by simp
  with h e show ?thesis by simp
qed

text \<open>
  The file is \<open>downloads/987.m4a\<close> and the edit to the unsupported text times out: the
  error is logged and the status message ends with the error text of the failure path.
\<close>

theorem unsupported_edit_fails_counterexample:
  "reply_status env_unsupported_edit_fails = Inr \<lparr>chat_id = 42, message_id = 7\<rparr>
   \<and> makedirs env_unsupported_edit_fails = Inr ()
   \<and> extract_info env_unsupported_edit_fails = Inr ()
   \<and> prepare_filename env_unsupported_edit_fails = Inr ''downloads/987.m4a''
   \<and> \<not> endswith_any ''downloads/987.m4a'' video_exts
   \<and> \<not> endswith_any ''downloads/987.m4a'' photo_exts
   \<and> calls is_error_log
        (fst (process_url env_unsupported_edit_fails (Str ''https://a.tumblr.com/post/987'')
                ''tumblr''))
       = [Log ERROR ''Error processing https://a.tumblr.com/post/987: Timed out'']
   \<and> status_text
        (fst (process_url env_unsupported_edit_fails (Str ''https://a.tumblr.com/post/987'')
                ''tumblr''))
       = Some ''Error sending media from Tumblr. Please try again or use a different link.''"
  by code_simp

lemma for_urls_jobs:
  "for_urls envs platform urls k =
     (job_blocks envs k (started envs k (map (Pair platform) urls)),
      jobs_outcome envs k (map (Pair platform) urls))"
proof (induction urls arbitrary: k)
  case Nil
  then show ?case by simp
next
  case (Cons url urls)
  obtain t r where run: "process_url (envs k) url platform = (t, r)"
    by (cases "process_url (envs k) url platform")
  show ?case
  proof (cases r)
    case (Inl e)
    with run show ?thesis by (simp add: job_block_def)
  next
    case (Inr u)
    with run Cons.IH [of "Suc k"] show ?thesis by (simp add: job_block_def)
  qed
qed

lemma jobs_outcome_Inr: "jobs_outcome envs k js = Inr k' \<Longrightarrow> k' = k + length js"
proof (induction js arbitrary: k)
  case Nil
  then show ?case by simp
next
  case (Cons j js)
  from Cons.prems have "jobs_outcome envs (Suc k) js = Inr k'"
    by (simp split: sum.splits)
  from Cons.IH [OF this] show ?case by simp
qed

lemma started_append:
  "started envs k (a @ b) =
     (case jobs_outcome envs k a of
        Inl e \<Rightarrow> started envs k a
      | Inr k' \<Rightarrow> a @ started envs k' b)"
proof (induction a arbitrary: k)
  case Nil
  then show ?case by simp
next
  case (Cons j a)
  then show ?case
    by (cases "snd (process_url (envs k) (snd j) (fst j))") (simp_all split: sum.splits)
qed

lemma jobs_outcome_append:
  "jobs_outcome envs k (a @ b) =
     (case jobs_outcome envs k a of Inl e \<Rightarrow> Inl e | Inr k' \<Rightarrow> jobs_outcome envs k' b)"
  by (induction a arbitrary: k) (simp_all split: sum.splits)

lemma job_blocks_append:
  "job_blocks envs k (a @ b) = job_blocks envs k a @ job_blocks envs (k + length a) b"
  by (induction a arbitrary: k) simp_all

lemma started_all:
  "jobs_outcome envs k js = Inr k' \<Longrightarrow> started envs k js = js"
proof (induction js arbitrary: k)
  case Nil
  then show ?case by simp
next
  case (Cons j js)
  from Cons.prems have "snd (process_url (envs k) (snd j) (fst j)) = Inr ()"
    and "jobs_outcome envs (Suc k) js = Inr k'"
    by (simp_all split: sum.splits)
  with Cons.IH [of "Suc k"] show ?case by simp
qed

lemma for_platforms_jobs:
  "for_platforms envs ps text k =
     (job_blocks envs k (started envs k (link_matcher ps text)),
      jobs_outcome envs k (link_matcher ps text))"
proof (induction ps arbitrary: k)
  case Nil
  then show ?case by (simp add: link_matcher_def)
next
  case (Cons pp ps)
  obtain platform pattern where pp: "pp = (platform, pattern)" by (cases pp)
  let ?a = "map (Pair platform) (findall pattern text)"
  have lm: "link_matcher ((platform, pattern) # ps) text = ?a @ link_matcher ps text"
    by (simp add: link_matcher_def)
  show ?case
  proof (cases "jobs_outcome envs k ?a")
    case (Inl e)
    then show ?thesis
      by (simp add: pp lm for_urls_jobs started_append jobs_outcome_append)
  next
    case (Inr k')
    from jobs_outcome_Inr [OF Inr] have k': "k' = k + length (findall pattern text)" by simp
    from Inr Cons.IH [of k'] show ?thesis
      by (simp add: pp lm for_urls_jobs started_append jobs_outcome_append
          job_blocks_append started_all [OF Inr] k')
  qed
qed

lemma started_prefix: "prefix (started envs k js) js"
  by (induction js arbitrary: k) simp_all

lemma started_butlast: "all_return envs k (butlast (started envs k js))"
  by (induction js arbitrary: k) simp_all

lemma jobs_outcome_cases:
  "case jobs_outcome envs k js of
     Inr k' \<Rightarrow> started envs k js = js \<and> all_return envs k js
   | Inl e \<Rightarrow> started envs k js \<noteq> []
       \<and> snd (process_url (envs (k + length (started envs k js) - 1))
                (snd (last (started envs k js))) (fst (last (started envs k js)))) = Inl e"
proof (induction js arbitrary: k)
  case Nil
  then show ?case by simp
next
  case (Cons j js)
  show ?case
  proof (cases "snd (process_url (envs k) (snd j) (fst j))")
    case (Inl e)
    then show ?thesis by simp
  next
    case (Inr u)
    with Cons.IH [of "Suc k"] show ?thesis
      by (cases "jobs_outcome envs (Suc k) js") auto
  qed
qed

text \<open>
  C10.  For a message with text, the trace of \<open>handle_message\<close> is its first log line
  followed by the blocks of the jobs it started, in the order of the matcher.  Each block
  holds the complete run of \<open>process_url\<close> for that URL, \<open>finally\<close> clause included, and
  the next block begins only after it: every started job but the last has returned.  The
  handler returns when all matched URLs were processed that way, and an exception of a
  job ends the handler with that job as the last one started.
\<close>

theorem jobs_run_one_after_another:
  assumes "text \<noteq> []"
  shows "\<exists>js. prefix js (link_matcher PLATFORMS text)
      \<and> fst (handle_message envs (Some text)) =
          Handler (Log DEBUG (''Received message: '' @ text), Returned Nothing)
          # job_blocks envs 0 js
      \<and> all_return envs 0 (butlast js)
      \<and> (case snd (handle_message envs (Some text)) of
            Inr _ \<Rightarrow> js = link_matcher PLATFORMS text \<and> all_return envs 0 js
          | Inl e \<Rightarrow> js \<noteq> []
              \<and> snd (process_url (envs (length js - 1)) (snd (last js)) (fst (last js))) = Inl e)"
proof (intro exI conjI)
  let ?js = "started envs 0 (link_matcher PLATFORMS text)"
  show "prefix ?js (link_matcher PLATFORMS text)" by (rule started_prefix)
  show "fst (handle_message envs (Some text)) =
          Handler (Log DEBUG (''Received message: '' @ text), Returned Nothing)
          # job_blocks envs 0 ?js"
    using assms by (simp add: handle_message_def for_platforms_jobs)
  show "all_return envs 0 (butlast ?js)" by (rule started_butlast)
  show "case snd (handle_message envs (Some text)) of
            Inr _ \<Rightarrow> ?js = link_matcher PLATFORMS text \<and> all_return envs 0 ?js
          | Inl e \<Rightarrow> ?js \<noteq> []
              \<and> snd (process_url (envs (length ?js - 1)) (snd (last ?js)) (fst (last ?js))) = Inl e"
    using assms jobs_outcome_cases [of envs 0 "link_matcher PLATFORMS text"]
    by (cases "jobs_outcome envs 0 (link_matcher PLATFORMS text)")
      (simp_all add: handle_message_def for_platforms_jobs)
qed


theorem jobs_run_one_after_another_witness:
  "''see https://a.tumblr.com/post/1 and https://b.tumblr.com/post/2'' \<noteq> []
   \<and> link_matcher PLATFORMS ''see https://a.tumblr.com/post/1 and https://b.tumblr.com/post/2''
       = [(''tumblr'', Str ''https://a.tumblr.com/post/1''),
          (''tumblr'', Str ''https://b.tumblr.com/post/2'')]
   \<and> (\<exists>js. prefix js
              (link_matcher PLATFORMS
                 ''see https://a.tumblr.com/post/1 and https://b.tumblr.com/post/2'')
      \<and> fst (handle_message (\<lambda>k. env_ok)
                (Some ''see https://a.tumblr.com/post/1 and https://b.tumblr.com/post/2'')) =
          Handler (Log DEBUG (''Received message: ''
                     @ ''see https://a.tumblr.com/post/1 and https://b.tumblr.com/post/2''),
                   Returned Nothing)
          # job_blocks (\<lambda>k. env_ok) 0 js
      \<and> all_return (\<lambda>k. env_ok) 0 (butlast js)
      \<and> (case snd (handle_message (\<lambda>k. env_ok)
                      (Some ''see https://a.tumblr.com/post/1 and https://b.tumblr.com/post/2'')) of
            Inr _ \<Rightarrow>
              js = link_matcher PLATFORMS
                     ''see https://a.tumblr.com/post/1 and https://b.tumblr.com/post/2''
              \<and> all_return (\<lambda>k. env_ok) 0 js
          | Inl e \<Rightarrow> js \<noteq> []
              \<and> snd (process_url ((\<lambda>k. env_ok) (length js - 1)) (snd (last js))
                       (fst (last js))) = Inl e))"
proof -
  have h: "''see https://a.tumblr.com/post/1 and https://b.tumblr.com/post/2'' \<noteq> []"
    by simp
  have m: "link_matcher PLATFORMS ''see https://a.tumblr.com/post/1 and https://b.tumblr.com/post/2''
       = [(''tumblr'', Str ''https://a.tumblr.com/post/1''),
          (''tumblr'', Str ''https://b.tumblr.com/post/2'')]"
    by code_simp
  note c = jobs_run_one_after_another [OF h, of "\<lambda>k. env_ok"]
  show ?thesis by (intro conjI) (rule h, rule m, rule c)
qed

end
